theory Spec2Isabelle
  imports Complex_Main
begin

section \<open>Conventions of the embedding\<close>

text \<open>
  The analytics engine (class \<open>AIAnalyticsEngine\<close>) and the metrics collector (class
  \<open>AdvancedChangeLogger\<close>) are embedded as pure functions over explicit state.
  \<^item> A JavaScript \<open>number\<close> is a \<open>real\<close>: the arithmetic of the source is read over the
    reals, without rounding, \<open>NaN\<close> or infinities.
  \<^item> A timestamp (\<open>Date.now()\<close>, or the ISO string of \<open>new Date().toISOString()\<close>, which
    the source only ever parses back with \<open>new Date(...)\<close>) is an \<open>int\<close> of milliseconds.
  \<^item> \<open>undefined\<close> and \<open>null\<close> are \<open>None\<close>.
  \<^item> An object literal with numeric properties (\<open>baseline\<close>, \<open>current\<close>, \<open>impact\<close>) is an
    association list from property names to numbers.
  \<^item> A template literal is kept as the list of its pieces, numbers not yet rendered.
\<close>

type_synonym jsobject = "(string \<times> real) list"

datatype text_part = Lit string | ToFixed real nat | Num real

section \<open>Trend direction (\<open>calculateTrendDirection\<close>)\<close>

text \<open>
  The \<open>for\<close> loop of \<open>calculateTrendDirection\<close>, with its index \<open>i\<close> and its counter
  \<open>increases\<close>. It is entered with \<open>i = 1\<close>, so \<open>values[i - 1]\<close> is always in range.
\<close>

function trend_loop :: "real list \<Rightarrow> nat \<Rightarrow> nat \<Rightarrow> nat" where
  "trend_loop vals i increases =
     (if i < length vals
      then trend_loop vals (i + 1) (if vals ! i > vals ! (i - 1) then increases + 1 else increases)
      else increases)"
  by pat_completeness auto
termination
  by (relation "measure (\<lambda>(vals, i, increases). length vals - i)") auto

declare trend_loop.simps [simp del]

definition calculateTrendDirection :: "real list \<Rightarrow> real" where
  "calculateTrendDirection vals =
     (if length vals < 2 then 0
      else (real (trend_loop vals 1 0) / real (length vals - 1)) * 100)"

text \<open>
  The reference definition, in the words of the specification: the percentage of
  consecutive increases across the window, and 0 below two samples.
\<close>

definition consecutive_increases :: "real list \<Rightarrow> nat" where
  "consecutive_increases v = length (filter (\<lambda>i. v ! i > v ! (i - 1)) [1 ..< length v])"

definition trend_direction_spec :: "real list \<Rightarrow> real" where
  "trend_direction_spec v =
     (if length v < 2 then 0
      else 100 * real (consecutive_increases v) / real (length v - 1))"

section \<open>Trend labels (\<open>calculateTrendStatus\<close>)\<close>

datatype trend_label = improving | stable | declining

text \<open>\<open>values.slice(-n)\<close> for a positive \<open>n\<close>: the last \<open>n\<close> elements, all of them if fewer.\<close>

definition slice_last :: "nat \<Rightarrow> 'a list \<Rightarrow> 'a list" where
  "slice_last n xs = drop (length xs - n) xs"

text \<open>\<open>item[field] || 0\<close>: a missing property reads as 0 (and so does the number 0).\<close>

definition or_zero :: "real option \<Rightarrow> real" where
  "or_zero v = (case v of None \<Rightarrow> 0 | Some x \<Rightarrow> x)"

text \<open>
  \<open>calculateTrendStatus(data, field, higherIsBetter)\<close>. The argument \<open>data\<close> is the optional
  array (\<open>None\<close> when the analytics payload or the property is missing), and \<open>field\<close> is the
  property access \<open>item[field]\<close> on the array's items.
\<close>

definition calculateTrendStatus :: "'a list option \<Rightarrow> ('a \<Rightarrow> real option) \<Rightarrow> bool \<Rightarrow> trend_label" where
  "calculateTrendStatus data field higherIsBetter =
     (case data of
        None \<Rightarrow> stable
      | Some items \<Rightarrow>
          if length items < 3 then stable
          else
            let recent = slice_last 3 items;
                trend = calculateTrendDirection (map (\<lambda>item. or_zero (field item)) recent)
            in if trend > 10 then (if higherIsBetter then improving else declining)
               else if trend < - 10 then (if higherIsBetter then declining else improving)
               else stable)"

section \<open>The engine's collections\<close>

datatype anomaly_type =
  performance_spike | error_burst | unusual_pattern | capacity_issue | user_behavior_anomaly

datatype severity = low | medium | high | critical

text \<open>
  The object literal a rule passes to \<open>addAnomaly\<close>. Every call site of the source gives
  exactly these ten properties and none of \<open>id\<close>, \<open>detectedAt\<close>, \<open>autoResolved\<close>, so the
  spread \<open>...anomalyData\<close> never overrides the three generated ones.
\<close>

record anomaly_data =
  atype :: anomaly_type
  severity :: severity
  confidence :: real
  title :: string
  description :: "text_part list"
  affectedMetrics :: "string list"
  baseline :: jsobject
  current :: jsobject
  deviation :: real
  suggestedActions :: "string list"

record anomaly = anomaly_data +
  anomaly_id :: string
  detectedAt :: int
  autoResolved :: bool
  resolvedAt :: "int option"

datatype insight_type = performance | behavior | system | optimization

record insight_data =
  itype :: insight_type
  i_severity :: severity
  i_confidence :: real
  i_title :: string
  i_description :: "text_part list"
  prediction :: "text_part list"
  recommendedActions :: "string list"
  timeframe :: string
  impact :: jsobject
  dataPoints :: "jsobject list"

record insight = insight_data +
  insight_id :: string
  createdAt :: int
  expiresAt :: int

datatype category =
  table_assignment | system_optimization | user_experience | cat_performance | capacity_planning

datatype priority = prio_low | prio_medium | prio_high | urgent

datatype effort = effort_low | effort_medium | effort_high

record recommendation_data =
  category :: category
  priority :: priority
  r_title :: string
  r_description :: "text_part list"
  rationale :: "text_part list"
  expectedBenefit :: string
  implementationEffort :: effort
  estimatedImpact :: jsobject
  actionSteps :: "string list"
  prerequisites :: "string list"
  risks :: "string list"

record recommendation = recommendation_data +
  recommendation_id :: string
  r_createdAt :: int
  validUntil :: int
  implemented :: bool
  implementedAt :: "int option"
  actualImpact :: "jsobject option"

text \<open>The three private arrays of \<open>AIAnalyticsEngine\<close>, empty at construction.\<close>

record engine =
  insights :: "insight list"
  anomalies :: "anomaly list"
  recommendations :: "recommendation list"

definition new_engine :: engine where
  "new_engine = \<lparr>insights = [], anomalies = [], recommendations = []\<rparr>"

text \<open>
  What one call reads from outside the program: \<open>now\<close> is \<open>Date.now()\<close>, and \<open>fresh\<close> is the
  rendered tail \<open>${Date.now()}_${Math.random().toString(36).substr(2, 9)}\<close> of a generated id.
\<close>

record env =
  now :: int
  fresh :: string

subsection \<open>Pruning (\<open>pruneAnomalies\<close>, \<open>pruneInsights\<close>, \<open>pruneRecommendations\<close>)\<close>

definition pruneAnomalies :: "engine \<Rightarrow> engine" where
  "pruneAnomalies s =
     (if length (anomalies s) > 100 then s\<lparr>anomalies := slice_last 100 (anomalies s)\<rparr> else s)"

definition pruneInsights :: "engine \<Rightarrow> engine" where
  "pruneInsights s =
     (if length (insights s) > 50 then s\<lparr>insights := slice_last 50 (insights s)\<rparr> else s)"

definition pruneRecommendations :: "engine \<Rightarrow> engine" where
  "pruneRecommendations s =
     (if length (recommendations s) > 30
      then s\<lparr>recommendations := slice_last 30 (recommendations s)\<rparr> else s)"

subsection \<open>Adding with deduplication (\<open>addAnomaly\<close>, \<open>addInsight\<close>, \<open>addRecommendation\<close>)\<close>

definition mk_anomaly :: "env \<Rightarrow> anomaly_data \<Rightarrow> anomaly" where
  "mk_anomaly e d =
     \<lparr>atype = atype d, severity = severity d, confidence = confidence d, title = title d,
      description = description d, affectedMetrics = affectedMetrics d, baseline = baseline d,
      current = current d, deviation = deviation d, suggestedActions = suggestedActions d,
      anomaly_id = ''anomaly_'' @ fresh e, detectedAt = now e, autoResolved = False,
      resolvedAt = None\<rparr>"

definition addAnomaly :: "env \<Rightarrow> anomaly_data \<Rightarrow> engine \<Rightarrow> engine" where
  "addAnomaly e anomalyData s =
     (let anomaly = mk_anomaly e anomalyData;
          existingAnomaly =
            find (\<lambda>a. atype a = atype anomaly \<and> title a = title anomaly \<and> \<not> autoResolved a)
              (anomalies s)
      in case existingAnomaly of
           Some a \<Rightarrow> s
         | None \<Rightarrow> pruneAnomalies (s\<lparr>anomalies := anomalies s @ [anomaly]\<rparr>))"

definition mk_insight :: "env \<Rightarrow> insight_data \<Rightarrow> insight" where
  "mk_insight e d =
     \<lparr>itype = itype d, i_severity = i_severity d, i_confidence = i_confidence d,
      i_title = i_title d, i_description = i_description d, prediction = prediction d,
      recommendedActions = recommendedActions d, timeframe = timeframe d, impact = impact d,
      dataPoints = dataPoints d,
      insight_id = ''insight_'' @ fresh e, createdAt = now e,
      expiresAt = now e + 24 * 60 * 60 * 1000\<rparr>"

definition addInsight :: "env \<Rightarrow> insight_data \<Rightarrow> engine \<Rightarrow> engine" where
  "addInsight e insightData s =
     (let insight = mk_insight e insightData;
          existingInsight =
            find (\<lambda>i. itype i = itype insight \<and> i_title i = i_title insight) (insights s)
      in case existingInsight of
           Some i \<Rightarrow> s
         | None \<Rightarrow> pruneInsights (s\<lparr>insights := insights s @ [insight]\<rparr>))"

definition mk_recommendation :: "env \<Rightarrow> recommendation_data \<Rightarrow> recommendation" where
  "mk_recommendation e d =
     \<lparr>category = category d, priority = priority d, r_title = r_title d,
      r_description = r_description d, rationale = rationale d,
      expectedBenefit = expectedBenefit d, implementationEffort = implementationEffort d,
      estimatedImpact = estimatedImpact d, actionSteps = actionSteps d,
      prerequisites = prerequisites d, risks = risks d,
      recommendation_id = ''rec_'' @ fresh e, r_createdAt = now e,
      validUntil = now e + 7 * 24 * 60 * 60 * 1000, implemented = False,
      implementedAt = None, actualImpact = None\<rparr>"

definition addRecommendation :: "env \<Rightarrow> recommendation_data \<Rightarrow> engine \<Rightarrow> engine" where
  "addRecommendation e recommendationData s =
     (let recommendation = mk_recommendation e recommendationData;
          existingRecommendation =
            find (\<lambda>r. category r = category recommendation
                       \<and> r_title r = r_title recommendation \<and> \<not> implemented r)
              (recommendations s)
      in case existingRecommendation of
           Some r \<Rightarrow> s
         | None \<Rightarrow> pruneRecommendations (s\<lparr>recommendations := recommendations s @ [recommendation]\<rparr>))"

subsection \<open>Cleanup passes\<close>

definition cleanupOldAnomalies :: "int \<Rightarrow> engine \<Rightarrow> engine" where
  "cleanupOldAnomalies t s =
     (let cutoff = t - 24 * 60 * 60 * 1000
      in s\<lparr>anomalies := filter (\<lambda>anomaly. detectedAt anomaly > cutoff \<or> \<not> autoResolved anomaly)
                            (anomalies s)\<rparr>)"

definition cleanupOldInsights :: "int \<Rightarrow> engine \<Rightarrow> engine" where
  "cleanupOldInsights t s = s\<lparr>insights := filter (\<lambda>insight. expiresAt insight > t) (insights s)\<rparr>"

definition cleanupOldRecommendations :: "int \<Rightarrow> engine \<Rightarrow> engine" where
  "cleanupOldRecommendations t s =
     s\<lparr>recommendations := filter (\<lambda>rec. validUntil rec > t) (recommendations s)\<rparr>"

subsection \<open>The two state transitions (\<open>resolveAnomaly\<close>, \<open>markRecommendationImplemented\<close>)\<close>

text \<open>
  \<open>find\<close> returns a reference to the first element with the given id and the assignments
  that follow mutate that object in place, so the array changes at the first matching
  position and nowhere else. With no matching element nothing is assigned. Neither method
  has a statement that can throw, so the model has no error branch.
\<close>

fun resolve_first :: "int \<Rightarrow> string \<Rightarrow> anomaly list \<Rightarrow> anomaly list" where
  "resolve_first t anomalyId [] = []"
| "resolve_first t anomalyId (a # rest) =
     (if anomaly_id a = anomalyId
      then a\<lparr>autoResolved := True, resolvedAt := Some t\<rparr> # rest
      else a # resolve_first t anomalyId rest)"

definition resolveAnomaly :: "int \<Rightarrow> string \<Rightarrow> engine \<Rightarrow> engine" where
  "resolveAnomaly t anomalyId s = s\<lparr>anomalies := resolve_first t anomalyId (anomalies s)\<rparr>"

fun implement_first :: "int \<Rightarrow> string \<Rightarrow> jsobject option \<Rightarrow> recommendation list \<Rightarrow> recommendation list" where
  "implement_first t recommendationId imp [] = []"
| "implement_first t recommendationId imp (r # rest) =
     (if recommendation_id r = recommendationId
      then (case imp of
              None \<Rightarrow> r\<lparr>implemented := True, implementedAt := Some t\<rparr>
            | Some v \<Rightarrow> r\<lparr>implemented := True, implementedAt := Some t, actualImpact := Some v\<rparr>) # rest
      else r # implement_first t recommendationId imp rest)"

definition markRecommendationImplemented :: "int \<Rightarrow> string \<Rightarrow> jsobject option \<Rightarrow> engine \<Rightarrow> engine" where
  "markRecommendationImplemented t recommendationId imp s =
     s\<lparr>recommendations := implement_first t recommendationId imp (recommendations s)\<rparr>"

section \<open>The metrics collector (\<open>AdvancedChangeLogger\<close>)\<close>

record PerformanceMetrics =
  operationId :: string
  operation :: string
  startTime :: real
  endTime :: "real option"
  duration :: "real option"
  success :: bool
  errorType :: "string option"
  resourcesAffected :: real
  pm_memoryUsage :: "real option"
  dbQueries :: "real option"

record UserBehaviorMetrics =
  sessionId :: string
  userId :: "string option"
  ub_timestamp :: int
  action :: string
  ub_duration :: real
  ub_clickPath :: "string list"
  errorEncountered :: bool
  userAgent :: string
  viewport :: "real \<times> real"
  connection :: "string option"

record SystemHealthMetrics =
  timestamp :: int
  cpuUsage :: "real option"
  memoryUsage :: real
  activeUsers :: real
  operationsPerMinute :: real
  errorRate :: real
  averageResponseTime :: real
  databaseConnections :: real
  cacheHitRate :: "real option"

text \<open>The private fields of \<open>AdvancedChangeLogger\<close>; the three series start empty.\<close>

record logger =
  performanceMetrics :: "PerformanceMetrics list"
  userBehaviorMetrics :: "UserBehaviorMetrics list"
  systemHealthMetrics :: "SystemHealthMetrics list"
  currentSession :: string
  clickPath :: "string list"

definition new_logger :: "string \<Rightarrow> logger" where
  "new_logger session =
     \<lparr>performanceMetrics = [], userBehaviorMetrics = [], systemHealthMetrics = [],
      currentSession = session, clickPath = []\<rparr>"

definition pruneMetrics :: "logger \<Rightarrow> logger" where
  "pruneMetrics l =
     (let l = (if length (performanceMetrics l) > 1000
               then l\<lparr>performanceMetrics := slice_last 1000 (performanceMetrics l)\<rparr> else l);
          l = (if length (userBehaviorMetrics l) > 1000
               then l\<lparr>userBehaviorMetrics := slice_last 1000 (userBehaviorMetrics l)\<rparr> else l);
          l = (if length (systemHealthMetrics l) > 1000
               then l\<lparr>systemHealthMetrics := slice_last 1000 (systemHealthMetrics l)\<rparr> else l)
      in l)"

subsection \<open>The change log (module \<open>change-logger\<close>)\<close>

datatype action_type = CREATE | UPDATE | DELETE | BULK_OPERATION | IMPORT | SYSTEM

datatype change_method = MANUAL | BULK | METHOD_IMPORT | AUTO_ASSIGN | API

record guest_ref =
  guest_id :: string
  guest_name :: string
  guest_cabin :: string

record field_change =
  changed_field :: string
  old_value :: "string option"
  new_value :: "string option"

text \<open>
  The interface \<open>LogChangeParams\<close>. \<open>additionalContext\<close> is an association list in which a
  later entry overrides an earlier one with the same key, as in an object spread.
\<close>

record LogChangeParams =
  lp_type :: action_type
  lp_operation :: string
  guests :: "guest_ref list option"
  changes :: "field_change list option"
  lp_method :: change_method
  userAction :: string
  batchId :: "string option"
  fileName :: "string option"
  errorDetails :: "string option"
  affectedCount :: "real option"
  additionalContext :: "(string \<times> string) list"

text \<open>
  The interface \<open>ChangeLogEntry\<close>, without its property \<open>description\<close>: the text built
  by \<open>generateDetailedDescription\<close> is not modelled.
\<close>

record ChangeLogEntry =
  entry_id :: string
  entry_timestamp :: int
  action_type :: action_type
  entry_operation :: string
  affected_guests :: "guest_ref list"
  entry_changes :: "field_change list"
  entry_method :: change_method
  user_action :: string
  batch_id :: "string option"
  file_name :: "string option"
  error_details :: "string option"
  affected_count :: "real option"

text \<open>
  What one call of \<open>logChange\<close> reads from outside: the clock, the tail of the generated
  id, whether \<open>window\<close> is defined, and whether a statement of its \<open>try\<close> block throws
  (building the description, \<open>JSON.stringify\<close>, \<open>localStorage.setItem\<close>).
\<close>

record log_env =
  le_now :: int
  le_fresh :: string
  le_window :: bool
  le_throws :: bool

text \<open>
  \<open>getChangeHistory()\<close>: the parsed item of local storage, the empty array without a
  \<open>window\<close>. The stored item is the list itself, empty when absent.
\<close>

definition getChangeHistory :: "bool \<Rightarrow> ChangeLogEntry list \<Rightarrow> ChangeLogEntry list" where
  "getChangeHistory window stored = (if \<not> window then [] else stored)"

text \<open>
  \<open>logChange(params)\<close>. Its whole body is a \<open>try\<close> block whose \<open>catch\<close> only writes to the
  console, so the promise it returns never rejects: the function returns the new content
  of the store and has no error result. The only write is \<open>setItem\<close>, so a throw leaves
  the store as it was.
\<close>

definition logChange :: "log_env \<Rightarrow> LogChangeParams \<Rightarrow> ChangeLogEntry list \<Rightarrow> ChangeLogEntry list" where
  "logChange e params stored =
     (if le_throws e then stored
      else
        (let entry =
               \<lparr>entry_id = ''change_'' @ le_fresh e, entry_timestamp = le_now e,
                action_type = lp_type params, entry_operation = lp_operation params,
                affected_guests = (case guests params of None \<Rightarrow> [] | Some g \<Rightarrow> g),
                entry_changes = (case changes params of None \<Rightarrow> [] | Some c \<Rightarrow> c),
                entry_method = lp_method params, user_action = userAction params,
                batch_id = batchId params, file_name = fileName params,
                error_details = errorDetails params, affected_count = affectedCount params\<rparr>;
             existingLogs = getChangeHistory (le_window e) stored;
             updatedLogs = take 1000 (entry # existingLogs)
         in if le_window e then updatedLogs else stored))"

subsection \<open>The wrapper \<open>logChangeWithPerformance\<close>\<close>

text \<open>
  A thrown JavaScript value: an instance of \<open>Error\<close> with the name of its constructor and
  its message, or any other value.
\<close>

datatype thrown = ErrorInstance string string | OtherValue string

text \<open>\<open>error instanceof Error ? error.constructor.name : "UnknownError"\<close>\<close>

definition classify :: "thrown \<Rightarrow> string" where
  "classify error = (case error of ErrorInstance name message \<Rightarrow> name | OtherValue v \<Rightarrow> ''UnknownError'')"

text \<open>\<open>error instanceof Error ? error.message : "Unknown error"\<close>\<close>

definition error_message :: "thrown \<Rightarrow> string" where
  "error_message error = (case error of ErrorInstance name message \<Rightarrow> message | OtherValue v \<Rightarrow> ''Unknown error'')"

text \<open>
  The \<open>TypeError\<close> of a property read on \<open>undefined\<close> or \<open>null\<close>. Its message depends on the
  engine and is represented by the name of the property whose read failed.
\<close>

definition property_type_error :: "string \<Rightarrow> thrown" where
  "property_type_error name = ErrorInstance ''TypeError'' name"

text \<open>
  What one call of the wrapper reads from outside: the tail of the generated operation id,
  \<open>performance.now()\<close> and \<open>getMemoryUsage()\<close> at entry and in the \<open>finally\<close> block, and
  what its call of \<open>logChange\<close> reads.
\<close>

record op_env =
  oe_fresh :: string
  oe_startTime :: real
  oe_endTime :: real
  oe_startMemory :: real
  oe_endMemory :: real
  oe_log :: log_env

text \<open>
  \<open>changeParams.affectedCount || changeParams.guests?.length || 1\<close>: the first operand
  that is neither missing nor 0.
\<close>

definition resources_affected :: "LogChangeParams \<Rightarrow> real" where
  "resources_affected changeParams =
     (case affectedCount changeParams of
        Some n \<Rightarrow> if n \<noteq> 0 then n
                  else (case guests changeParams of
                          Some g \<Rightarrow> if length g \<noteq> 0 then real (length g) else 1
                        | None \<Rightarrow> 1)
      | None \<Rightarrow> (case guests changeParams of
                   Some g \<Rightarrow> if length g \<noteq> 0 then real (length g) else 1
                 | None \<Rightarrow> 1))"

text \<open>The object literal \<open>metrics\<close> of the \<open>finally\<close> block.\<close>

definition mk_metrics :: "op_env \<Rightarrow> string \<Rightarrow> LogChangeParams \<Rightarrow> bool \<Rightarrow> string option \<Rightarrow> PerformanceMetrics" where
  "mk_metrics e op changeParams ok et =
     \<lparr>operationId = ''op_'' @ oe_fresh e, operation = op, startTime = oe_startTime e,
      endTime = Some (oe_endTime e), duration = Some (oe_endTime e - oe_startTime e),
      success = ok, errorType = et, resourcesAffected = resources_affected changeParams,
      pm_memoryUsage = Some (oe_endMemory e - oe_startMemory e), dbQueries = None\<rparr>"

text \<open>
  \<open>logChangeWithPerformance(operation, asyncOperation, changeParams)\<close>, exported as
  \<open>trackOperation\<close>.
  \<^item> \<open>asyncOperation\<close> is the outcome of the awaited unit of work: \<open>Inr\<close> its result, \<open>Inl\<close>
    the value it threw.
  \<^item> \<open>changeParams\<close> is typed \<open>any\<close>: \<open>Some\<close> is an object, read as the type of the object
    it is spread into, and \<open>None\<close> is \<open>undefined\<close> or \<open>null\<close>.
  \<^item> With an object, the \<open>try\<close> block runs the work and then \<open>logChange\<close>. Since \<open>logChange\<close>
    never throws, the \<open>catch\<close> block is entered exactly when the work threw: it sets
    \<open>success\<close> and \<open>errorType\<close>, logs the failure as a \<open>SYSTEM\<close> entry and rethrows the caught
    value. The \<open>finally\<close> block pushes the sample and prunes on both paths.
  \<^item> With \<open>undefined\<close> or \<open>null\<close>, the work still runs, but every read of a property of
    \<open>changeParams\<close> throws a \<open>TypeError\<close>: building the argument of \<open>logChange\<close> in the \<open>try\<close>
    block (after a successful work) or in the \<open>catch\<close> block, before \<open>logChange\<close> is called,
    and then building \<open>metrics\<close> in the \<open>finally\<close> block, before the push. The caller gets
    the \<open>TypeError\<close> of the \<open>finally\<close> block, whatever the work did, and neither the
    collector nor the change log changes.
  The result is the outcome for the caller, the collector and the stored change log.
\<close>

definition logChangeWithPerformance ::
  "op_env \<Rightarrow> string \<Rightarrow> thrown + 'a \<Rightarrow> LogChangeParams option \<Rightarrow> logger \<times> ChangeLogEntry list
     \<Rightarrow> (thrown + 'a) \<times> logger \<times> ChangeLogEntry list" where
  "logChangeWithPerformance e op asyncOperation changeParams st =
     (case changeParams of
        None \<Rightarrow> (Inl (property_type_error ''affectedCount''), fst st, snd st)
      | Some params \<Rightarrow>
          (let l = fst st; stored = snd st;
               operationId = ''op_'' @ oe_fresh e;
               attempt =
                 (case asyncOperation of
                    Inr result \<Rightarrow>
                      (Inr result, True, None,
                       logChange (oe_log e)
                         (params\<lparr>additionalContext :=
                             additionalContext params
                               @ [(''operationId'', operationId), (''performanceTracked'', ''true'')]\<rparr>)
                         stored)
                  | Inl error \<Rightarrow>
                      (let errorType = classify error
                       in (Inl error, False, Some errorType,
                           logChange (oe_log e)
                             (params\<lparr>lp_type := SYSTEM,
                                errorDetails := Some (error_message error),
                                additionalContext :=
                                  additionalContext params
                                    @ [(''operationId'', operationId), (''performanceTracked'', ''true''),
                                       (''errorType'', errorType)]\<rparr>)
                             stored)));
               metrics = mk_metrics e op params (fst (snd attempt)) (fst (snd (snd attempt)))
           in (fst attempt,
               pruneMetrics (l\<lparr>performanceMetrics := performanceMetrics l @ [metrics]\<rparr>),
               snd (snd (snd attempt)))))"

subsection \<open>\<open>trackUserBehavior\<close> and \<open>recordSystemHealth\<close>\<close>

text \<open>
  The argument \<open>context\<close> as an object: \<open>context.duration || 0\<close> and \<open>context.error || false\<close>
  are read.
\<close>

record behavior_context =
  c_duration :: "real option"
  c_error :: "bool option"

text \<open>What \<open>trackUserBehavior\<close> reads from the browser.\<close>

record browser =
  b_now :: int
  b_userAgent :: string
  b_viewport :: "real \<times> real"
  b_connection :: "string option"

text \<open>The object literal \<open>metrics\<close> of \<open>trackUserBehavior\<close>.\<close>

definition mk_behavior_metrics ::
  "browser \<Rightarrow> string \<Rightarrow> behavior_context \<Rightarrow> logger \<Rightarrow> UserBehaviorMetrics" where
  "mk_behavior_metrics b act context l =
     \<lparr>sessionId = currentSession l, userId = None, ub_timestamp = b_now b, action = act,
      ub_duration = or_zero (c_duration context), ub_clickPath = clickPath l,
      errorEncountered = (case c_error context of None \<Rightarrow> False | Some x \<Rightarrow> x),
      userAgent = b_userAgent b, viewport = b_viewport b, connection = b_connection b\<rparr>"

text \<open>
  \<open>trackUserBehavior(action, context = {})\<close>. The argument is the one after the default
  has replaced \<open>undefined\<close>: \<open>Some\<close> is an object and \<open>None\<close> is \<open>null\<close>, on which the read
  \<open>context.duration\<close> throws a \<open>TypeError\<close> before anything is pushed. The result is the
  value thrown, if any, and the collector.
\<close>

definition trackUserBehavior ::
  "browser \<Rightarrow> string \<Rightarrow> behavior_context option \<Rightarrow> logger \<Rightarrow> thrown option \<times> logger" where
  "trackUserBehavior b act context l =
     (case context of
        None \<Rightarrow> (Some (property_type_error ''duration''), l)
      | Some c \<Rightarrow>
          (let metrics = mk_behavior_metrics b act c l
           in (None, pruneMetrics (l\<lparr>userBehaviorMetrics := userBehaviorMetrics l @ [metrics]\<rparr>))))"

text \<open>\<open>getRecentChanges(minutes)\<close>, on the result of \<open>getChangeHistory()\<close>.\<close>

definition getRecentChanges :: "int \<Rightarrow> ChangeLogEntry list \<Rightarrow> int \<Rightarrow> ChangeLogEntry list" where
  "getRecentChanges t history minutes =
     (let cutoff = t - minutes * 60 * 1000
      in filter (\<lambda>entry. entry_timestamp entry > cutoff) history)"

definition getAverageResponseTime :: "logger \<Rightarrow> real" where
  "getAverageResponseTime l =
     (let recentMetrics = slice_last 10 (performanceMetrics l)
      in if length recentMetrics = 0 then 0
         else (let totalDuration = foldl (\<lambda>sum m. sum + or_zero (duration m)) 0 recentMetrics
               in totalDuration / real (length recentMetrics)))"

text \<open>
  What \<open>recordSystemHealth\<close> reads from outside: the clock, whether \<open>window\<close> is defined,
  the heap size of \<open>getMemoryUsage()\<close> and the value of \<open>Math.random() * 100\<close>.
\<close>

record health_env =
  h_now :: int
  h_window :: bool
  h_memory :: real
  h_random :: real

text \<open>The object literal \<open>metrics\<close> of \<open>recordSystemHealth\<close>.\<close>

definition mk_health_metrics :: "health_env \<Rightarrow> ChangeLogEntry list \<Rightarrow> logger \<Rightarrow> SystemHealthMetrics" where
  "mk_health_metrics h stored l =
     (let recentChanges = getRecentChanges (h_now h) (getChangeHistory (h_window h) stored) 1;
          recentErrors = filter (\<lambda>c. action_type c = SYSTEM) recentChanges
      in \<lparr>timestamp = h_now h, cpuUsage = None, memoryUsage = h_memory h, activeUsers = 1,
          operationsPerMinute = real (length recentChanges),
          errorRate = (if length recentChanges > 0
                       then (real (length recentErrors) / real (length recentChanges)) * 100
                       else 0),
          averageResponseTime = getAverageResponseTime l,
          databaseConnections = 1, cacheHitRate = Some (h_random h)\<rparr>)"

definition recordSystemHealth :: "health_env \<Rightarrow> ChangeLogEntry list \<Rightarrow> logger \<Rightarrow> logger" where
  "recordSystemHealth h stored l =
     (let metrics = mk_health_metrics h stored l
      in pruneMetrics (l\<lparr>systemHealthMetrics := systemHealthMetrics l @ [metrics]\<rparr>))"

subsection \<open>Health analytics (\<open>getSystemHealthAnalytics\<close>)\<close>

text \<open>\<open>xs[xs.length - 1]\<close>: the last element, \<open>undefined\<close> on the empty array.\<close>

definition last_opt :: "'a list \<Rightarrow> 'a option" where
  "last_opt xs = (if xs = [] then None else Some (last xs))"

definition calculatePerformanceScore :: "logger \<Rightarrow> real" where
  "calculatePerformanceScore l =
     (case last_opt (systemHealthMetrics l) of
        None \<Rightarrow> 100
      | Some cur \<Rightarrow>
          (let score = 100;
               score = score - errorRate cur * 2;
               score = (if averageResponseTime cur > 500
                        then score - (averageResponseTime cur - 500) / 10 else score);
               score = (if memoryUsage cur > 50
                        then score - (memoryUsage cur - 50) / 2 else score)
           in max 0 (min 100 score)))"

datatype alert_type = warning | alert_critical

definition generateHealthAlerts :: "logger \<Rightarrow> (alert_type \<times> text_part list) list" where
  "generateHealthAlerts l =
     (case last_opt (systemHealthMetrics l) of
        None \<Rightarrow> []
      | Some cur \<Rightarrow>
          (if errorRate cur > 10
           then [(alert_critical, [Lit ''High error rate: '', ToFixed (errorRate cur) 1, Lit ''%''])]
           else if errorRate cur > 5
           then [(warning, [Lit ''Elevated error rate: '', ToFixed (errorRate cur) 1, Lit ''%''])]
           else [])
          @ (if averageResponseTime cur > 1000
             then [(alert_critical,
                    [Lit ''Slow response time: '', ToFixed (averageResponseTime cur) 0, Lit ''ms''])]
             else if averageResponseTime cur > 500
             then [(warning,
                    [Lit ''Elevated response time: '', ToFixed (averageResponseTime cur) 0, Lit ''ms''])]
             else [])
          @ (if memoryUsage cur > 100
             then [(warning, [Lit ''High memory usage: '', ToFixed (memoryUsage cur) 1, Lit ''MB''])]
             else []))"

record resource_usage =
  ru_timestamp :: int
  ru_memoryUsage :: real
  ru_operationsPerMinute :: real
  ru_errorRate :: real
  responseTime :: real

definition getResourceUsageTrends :: "logger \<Rightarrow> resource_usage list" where
  "getResourceUsageTrends l =
     map (\<lambda>metric. \<lparr>ru_timestamp = timestamp metric, ru_memoryUsage = memoryUsage metric,
                     ru_operationsPerMinute = operationsPerMinute metric,
                     ru_errorRate = errorRate metric,
                     responseTime = averageResponseTime metric\<rparr>)
       (slice_last 24 (systemHealthMetrics l))"

record health_analytics =
  currentHealth :: "SystemHealthMetrics option"
  healthTrends :: "SystemHealthMetrics list"
  alerts :: "(alert_type \<times> text_part list) list"
  resourceUsage :: "resource_usage list"
  performanceScore :: real

definition getSystemHealthAnalytics :: "logger \<Rightarrow> health_analytics" where
  "getSystemHealthAnalytics l =
     \<lparr>currentHealth = last_opt (systemHealthMetrics l),
      healthTrends = slice_last 24 (systemHealthMetrics l),
      alerts = generateHealthAlerts l,
      resourceUsage = getResourceUsageTrends l,
      performanceScore = calculatePerformanceScore l\<rparr>"

section \<open>The anomaly-detection pass (\<open>runAnomalyDetection\<close>)\<close>

subsection \<open>The analytics payloads\<close>

text \<open>
  The objects returned by \<open>getPerformanceAnalytics\<close> and \<open>getUserBehaviorAnalytics\<close>. The
  detection functions and the dashboard take them as arguments (\<open>None\<close> for a missing
  payload).
\<close>

record error_pattern =
  ep_pattern :: string
  ep_count :: real

record performance_trend =
  trend_hour :: string
  pt_averageDuration :: real
  operationCount :: real
  pt_errorRate :: real

record operation_frequency =
  of_operation :: string
  of_count :: real

record performance_analytics =
  totalOperations :: real
  successRate :: real
  averageDuration :: real
  slowestOperations :: "PerformanceMetrics list"
  errorPatterns :: "error_pattern list"
  operationFrequency :: "operation_frequency list"
  performanceTrends :: "performance_trend list"

record error_prone_path =
  epp_path :: string
  epp_count :: real

record peak_usage =
  peak_hour :: real
  peak_count :: real

record behavior_analytics =
  totalSessions :: real
  averageSessionDuration :: real
  mostCommonActions :: "(string \<times> real) list"
  errorPronePaths :: "error_prone_path list"
  deviceBreakdown :: "(string \<times> real) list"
  peakUsageTimes :: "peak_usage list"

subsection \<open>The object literals of the eight rules\<close>

definition performance_spike_anomaly :: "real \<Rightarrow> anomaly_data" where
  "performance_spike_anomaly avg =
     \<lparr>atype = performance_spike,
      severity = (if avg > 5000 then critical else high),
      confidence = 95,
      title = ''Performance Degradation Detected'',
      description = [Lit ''Average operation duration has increased to '', ToFixed (avg / 1000) 2, Lit ''s''],
      affectedMetrics = [''response_time'', ''user_experience''],
      baseline = [(''averageDuration'', 800)],
      current = [(''averageDuration'', avg)],
      deviation = ((avg - 800) / 800) * 100,
      suggestedActions = [''Check system resources'', ''Analyze slow operations'',
        ''Consider scaling infrastructure'', ''Review recent changes'']\<rparr>"

definition error_burst_anomaly :: "real \<Rightarrow> nat \<Rightarrow> anomaly_data" where
  "error_burst_anomaly totalErrors n =
     \<lparr>atype = error_burst,
      severity = (if totalErrors > 50 then critical else high),
      confidence = 90,
      title = ''Error Rate Spike Detected'',
      description = [Lit ''Detected '', Num totalErrors, Lit '' errors across '', Num (real n),
        Lit '' different patterns''],
      affectedMetrics = [''error_rate'', ''system_stability''],
      baseline = [(''errorCount'', 2)],
      current = [(''errorCount'', totalErrors)],
      deviation = ((totalErrors - 2) / 2) * 100,
      suggestedActions = [''Investigate error patterns'', ''Check system logs'',
        ''Review recent deployments'', ''Monitor affected operations'']\<rparr>"

definition degradation_trend_anomaly :: "real \<Rightarrow> anomaly_data" where
  "degradation_trend_anomaly trendDirection =
     \<lparr>atype = unusual_pattern,
      severity = medium,
      confidence = 80,
      title = ''Performance Degradation Trend'',
      description = [Lit ''System performance has been consistently degrading over recent periods''],
      affectedMetrics = [''performance_trend''],
      baseline = [(''trend'', 0)],
      current = [(''trend'', trendDirection)],
      deviation = trendDirection,
      suggestedActions = [''Analyze performance bottlenecks'', ''Review system capacity'',
        ''Check for memory leaks'', ''Monitor resource usage'']\<rparr>"

definition error_paths_anomaly :: "nat \<Rightarrow> anomaly_data" where
  "error_paths_anomaly n =
     \<lparr>atype = user_behavior_anomaly,
      severity = medium,
      confidence = 85,
      title = ''Multiple Error-Prone User Paths Detected'',
      description = [Lit ''Users are encountering errors in '', Num (real n),
        Lit '' different interaction patterns''],
      affectedMetrics = [''user_experience'', ''error_rate''],
      baseline = [(''errorPaths'', 1)],
      current = [(''errorPaths'', real n)],
      deviation = ((real n - 1) / 1) * 100,
      suggestedActions = [''Review UI/UX design'', ''Analyze user interaction flows'',
        ''Improve error handling'', ''Add user guidance'']\<rparr>"

definition unusual_peaks_anomaly :: "real \<Rightarrow> anomaly_data" where
  "unusual_peaks_anomaly offHours =
     \<lparr>atype = unusual_pattern,
      severity = low,
      confidence = 70,
      title = ''Unusual Peak Usage Times'',
      description = [Lit ''Detected significant activity during typically low-usage hours''],
      affectedMetrics = [''usage_pattern''],
      baseline = [(''offHoursUsage'', 5)],
      current = [(''offHoursUsage'', offHours)],
      deviation = 200,
      suggestedActions = [''Investigate off-hours activity'', ''Check for automated processes'',
        ''Review user access patterns'', ''Consider timezone differences'']\<rparr>"

definition high_memory_anomaly :: "real \<Rightarrow> anomaly_data" where
  "high_memory_anomaly mem =
     \<lparr>atype = capacity_issue,
      severity = (if mem > 95 then critical else high),
      confidence = 95,
      title = ''High Memory Usage Detected'',
      description = [Lit ''Memory usage at '', ToFixed mem 1, Lit ''MB''],
      affectedMetrics = [''memory_usage'', ''system_performance''],
      baseline = [(''memoryUsage'', 50)],
      current = [(''memoryUsage'', mem)],
      deviation = ((mem - 50) / 50) * 100,
      suggestedActions = [''Clear memory caches'', ''Restart services if needed'',
        ''Check for memory leaks'', ''Scale resources'']\<rparr>"

definition error_rate_anomaly :: "real \<Rightarrow> anomaly_data" where
  "error_rate_anomaly rate =
     \<lparr>atype = error_burst,
      severity = (if rate > 15 then critical else high),
      confidence = 90,
      title = ''Elevated System Error Rate'',
      description = [Lit ''Error rate at '', ToFixed rate 1, Lit ''%''],
      affectedMetrics = [''error_rate'', ''system_reliability''],
      baseline = [(''errorRate'', 1)],
      current = [(''errorRate'', rate)],
      deviation = ((rate - 1) / 1) * 100,
      suggestedActions = [''Investigate error sources'', ''Check system logs'',
        ''Review recent changes'', ''Monitor critical services'']\<rparr>"

definition memory_trend_anomaly :: "real \<Rightarrow> anomaly_data" where
  "memory_trend_anomaly memoryTrend =
     \<lparr>atype = capacity_issue,
      severity = medium,
      confidence = 75,
      title = ''Memory Usage Trending Upward'',
      description = [Lit ''Memory usage has been consistently increasing''],
      affectedMetrics = [''memory_trend''],
      baseline = [(''memoryTrend'', 0)],
      current = [(''memoryTrend'', memoryTrend)],
      deviation = memoryTrend,
      suggestedActions = [''Monitor memory usage closely'', ''Check for memory leaks'',
        ''Plan capacity scaling'', ''Optimize memory usage'']\<rparr>"

subsection \<open>The three detection functions and the pass\<close>

text \<open>
  Each detection function takes the environment of each of its \<open>addAnomaly\<close> calls. The
  arrays of a payload built by the collector are always present, so the guards
  \<open>errorPatterns && ...\<close> reduce to the tests on the lengths.
\<close>

definition detectPerformanceAnomalies ::
  "env \<Rightarrow> env \<Rightarrow> env \<Rightarrow> performance_analytics option \<Rightarrow> engine \<Rightarrow> engine" where
  "detectPerformanceAnomalies e1 e2 e3 performanceData s =
     (case performanceData of
        None \<Rightarrow> s
      | Some p \<Rightarrow>
          (let s1 = (if averageDuration p > 2000
                     then addAnomaly e1 (performance_spike_anomaly (averageDuration p)) s
                     else s);
               s2 = (if length (errorPatterns p) > 0
                     then (let totalErrors =
                                 foldl (\<lambda>sum pat. sum + ep_count pat) 0 (errorPatterns p)
                           in if totalErrors > 10
                              then addAnomaly e2
                                     (error_burst_anomaly totalErrors (length (errorPatterns p))) s1
                              else s1)
                     else s1);
               s3 = (if length (performanceTrends p) > 5
                     then (let recentTrends = slice_last 5 (performanceTrends p);
                               trendDirection =
                                 calculateTrendDirection (map pt_averageDuration recentTrends)
                           in if trendDirection > 50
                              then addAnomaly e3 (degradation_trend_anomaly trendDirection) s2
                              else s2)
                     else s2)
           in s3))"

definition detectBehaviorAnomalies ::
  "env \<Rightarrow> env \<Rightarrow> behavior_analytics option \<Rightarrow> engine \<Rightarrow> engine" where
  "detectBehaviorAnomalies e1 e2 behaviorData s =
     (case behaviorData of
        None \<Rightarrow> s
      | Some b \<Rightarrow>
          (let s1 = (if length (errorPronePaths b) > 3
                     then addAnomaly e1 (error_paths_anomaly (length (errorPronePaths b))) s
                     else s);
               s2 = (if length (peakUsageTimes b) > 0
                     then (let unusualPeaks =
                                 filter (\<lambda>peak. peak_hour peak < 6 \<or> peak_hour peak > 22)
                                   (peakUsageTimes b)
                           in if length unusualPeaks > 0
                              then addAnomaly e2
                                     (unusual_peaks_anomaly
                                        (foldl (\<lambda>sum p. sum + peak_count p) 0 unusualPeaks)) s1
                              else s1)
                     else s1)
           in s2))"

definition detectSystemHealthAnomalies ::
  "env \<Rightarrow> env \<Rightarrow> env \<Rightarrow> health_analytics option \<Rightarrow> engine \<Rightarrow> engine" where
  "detectSystemHealthAnomalies e1 e2 e3 healthData s =
     (case healthData of
        None \<Rightarrow> s
      | Some h \<Rightarrow>
          (case currentHealth h of
             None \<Rightarrow> s
           | Some cur \<Rightarrow>
               (let s1 = (if memoryUsage cur > 80
                          then addAnomaly e1 (high_memory_anomaly (memoryUsage cur)) s
                          else s);
                    s2 = (if errorRate cur > 5
                          then addAnomaly e2 (error_rate_anomaly (errorRate cur)) s1
                          else s1);
                    s3 = (if length (resourceUsage h) > 5
                          then (let memoryTrend =
                                      calculateTrendDirection
                                        (map ru_memoryUsage (slice_last 5 (resourceUsage h)))
                                in if memoryTrend > 30
                                   then addAnomaly e3 (memory_trend_anomaly memoryTrend) s2
                                   else s2)
                          else s2)
                in s3)))"

text \<open>
  \<open>runAnomalyDetection\<close>, on the three payloads its first lines fetch. \<open>w k\<close> is the
  environment of the \<open>k\<close>-th call that reads the clock: the eight rules in order, then the
  cleanup. No statement of the \<open>try\<close> block throws on these payloads.
\<close>

definition runAnomalyDetection ::
  "(nat \<Rightarrow> env) \<Rightarrow> performance_analytics option \<Rightarrow> behavior_analytics option
     \<Rightarrow> health_analytics option \<Rightarrow> engine \<Rightarrow> engine" where
  "runAnomalyDetection w performanceData behaviorData healthData s =
     (let s1 = detectPerformanceAnomalies (w 0) (w 1) (w 2) performanceData s;
          s2 = detectBehaviorAnomalies (w 3) (w 4) behaviorData s1;
          s3 = detectSystemHealthAnomalies (w 5) (w 6) (w 7) healthData s2
      in cleanupOldAnomalies (now (w 8)) s3)"

subsection \<open>The pass as a sequence of rule firings\<close>

text \<open>A sequence of \<open>addAnomaly\<close> calls, each with its environment and its object.\<close>

fun adds :: "(env \<times> anomaly_data) list \<Rightarrow> engine \<Rightarrow> engine" where
  "adds [] s = s"
| "adds (f # fs) s = adds fs (addAnomaly (fst f) (snd f) s)"

text \<open>The rules of each detection function that fire on a payload, in order.\<close>

definition performance_firings ::
  "env \<Rightarrow> env \<Rightarrow> env \<Rightarrow> performance_analytics option \<Rightarrow> (env \<times> anomaly_data) list" where
  "performance_firings e1 e2 e3 performanceData =
     (case performanceData of
        None \<Rightarrow> []
      | Some p \<Rightarrow>
          (if averageDuration p > 2000
           then [(e1, performance_spike_anomaly (averageDuration p))] else [])
          @ (if length (errorPatterns p) > 0
                \<and> foldl (\<lambda>sum pat. sum + ep_count pat) 0 (errorPatterns p) > 10
             then [(e2, error_burst_anomaly
                          (foldl (\<lambda>sum pat. sum + ep_count pat) 0 (errorPatterns p))
                          (length (errorPatterns p)))]
             else [])
          @ (if length (performanceTrends p) > 5
                \<and> calculateTrendDirection
                     (map pt_averageDuration (slice_last 5 (performanceTrends p))) > 50
             then [(e3, degradation_trend_anomaly
                          (calculateTrendDirection
                             (map pt_averageDuration (slice_last 5 (performanceTrends p)))))]
             else []))"

definition behavior_firings ::
  "env \<Rightarrow> env \<Rightarrow> behavior_analytics option \<Rightarrow> (env \<times> anomaly_data) list" where
  "behavior_firings e1 e2 behaviorData =
     (case behaviorData of
        None \<Rightarrow> []
      | Some b \<Rightarrow>
          (if length (errorPronePaths b) > 3
           then [(e1, error_paths_anomaly (length (errorPronePaths b)))] else [])
          @ (if length (peakUsageTimes b) > 0
                \<and> length (filter (\<lambda>peak. peak_hour peak < 6 \<or> peak_hour peak > 22)
                             (peakUsageTimes b)) > 0
             then [(e2, unusual_peaks_anomaly
                          (foldl (\<lambda>sum p. sum + peak_count p) 0
                             (filter (\<lambda>peak. peak_hour peak < 6 \<or> peak_hour peak > 22)
                                (peakUsageTimes b))))]
             else []))"

definition health_firings ::
  "env \<Rightarrow> env \<Rightarrow> env \<Rightarrow> health_analytics option \<Rightarrow> (env \<times> anomaly_data) list" where
  "health_firings e1 e2 e3 healthData =
     (case healthData of
        None \<Rightarrow> []
      | Some h \<Rightarrow>
          (case currentHealth h of
             None \<Rightarrow> []
           | Some cur \<Rightarrow>
               (if memoryUsage cur > 80 then [(e1, high_memory_anomaly (memoryUsage cur))] else [])
               @ (if errorRate cur > 5 then [(e2, error_rate_anomaly (errorRate cur))] else [])
               @ (if length (resourceUsage h) > 5
                     \<and> calculateTrendDirection
                          (map ru_memoryUsage (slice_last 5 (resourceUsage h))) > 30
                  then [(e3, memory_trend_anomaly
                               (calculateTrendDirection
                                  (map ru_memoryUsage (slice_last 5 (resourceUsage h)))))]
                  else [])))"

definition pass_firings ::
  "(nat \<Rightarrow> env) \<Rightarrow> performance_analytics option \<Rightarrow> behavior_analytics option
     \<Rightarrow> health_analytics option \<Rightarrow> (env \<times> anomaly_data) list" where
  "pass_firings w performanceData behaviorData healthData =
     performance_firings (w 0) (w 1) (w 2) performanceData
     @ behavior_firings (w 3) (w 4) behaviorData
     @ health_firings (w 5) (w 6) (w 7) healthData"

section \<open>The dashboard's trend analysis (\<open>getDashboard\<close>)\<close>

text \<open>
  The property access \<open>item[field]\<close> on the items of the three arrays, for their numeric
  properties; any other name reads as \<open>undefined\<close>. (The string properties \<open>hour\<close>,
  \<open>operation\<close> and \<open>path\<close> are never read this way.)
\<close>

definition performance_trend_property :: "string \<Rightarrow> performance_trend \<Rightarrow> real option" where
  "performance_trend_property name item =
     (if name = ''averageDuration'' then Some (pt_averageDuration item)
      else if name = ''operationCount'' then Some (operationCount item)
      else if name = ''errorRate'' then Some (pt_errorRate item)
      else None)"

definition operation_frequency_property :: "string \<Rightarrow> operation_frequency \<Rightarrow> real option" where
  "operation_frequency_property name item =
     (if name = ''count'' then Some (of_count item) else None)"

definition error_prone_path_property :: "string \<Rightarrow> error_prone_path \<Rightarrow> real option" where
  "error_prone_path_property name item =
     (if name = ''count'' then Some (epp_count item) else None)"

record trend_analysis =
  ta_performance :: trend_label
  ta_efficiency :: trend_label
  ta_userSatisfaction :: trend_label
  ta_systemHealth :: trend_label

text \<open>
  The property \<open>trendAnalysis\<close> of the object \<open>getDashboard\<close> returns, on the three payloads
  its first lines fetch. \<open>healthData?.performanceScore > 80\<close> is false without a payload.
\<close>

definition getDashboard_trendAnalysis ::
  "performance_analytics option \<Rightarrow> behavior_analytics option \<Rightarrow> health_analytics option
     \<Rightarrow> trend_analysis" where
  "getDashboard_trendAnalysis performanceData behaviorData healthData =
     \<lparr>ta_performance =
        calculateTrendStatus (map_option performanceTrends performanceData)
          (performance_trend_property ''averageDuration'') False,
      ta_efficiency =
        calculateTrendStatus (map_option operationFrequency performanceData)
          (operation_frequency_property ''count'') True,
      ta_userSatisfaction =
        calculateTrendStatus (map_option errorPronePaths behaviorData)
          (error_prone_path_property ''length'') False,
      ta_systemHealth =
        (if (case healthData of None \<Rightarrow> False | Some h \<Rightarrow> performanceScore h > 80)
         then improving else declining)\<rparr>"

text \<open>
  The trend-direction heuristic reports a rise over the recent samples: there are at least
  three items and the trend direction of the last three values of the property exceeds 10.
\<close>

definition rising_trend :: "'a list option \<Rightarrow> ('a \<Rightarrow> real option) \<Rightarrow> bool" where
  "rising_trend data prop =
     (case data of
        None \<Rightarrow> False
      | Some items \<Rightarrow>
          length items \<ge> 3
          \<and> calculateTrendDirection (map (\<lambda>item. or_zero (prop item)) (slice_last 3 items)) > 10)"

section \<open>The operations on the engine and the collector\<close>

text \<open>
  The state of the two singletons and of the stored change log, and the operations that
  change it: every rule firing of the engine is a call of \<open>addAnomaly\<close>, \<open>addInsight\<close> or
  \<open>addRecommendation\<close>, and every pass is a sequence of such calls followed by its cleanup
  (the anomaly-detection pass is also an operation of its own).
\<close>

record system =
  sys_engine :: engine
  sys_logger :: logger
  sys_stored :: "ChangeLogEntry list"

datatype sys_op =
    AddAnomaly env anomaly_data
  | AddInsight env insight_data
  | AddRecommendation env recommendation_data
  | RunAnomalyDetection "nat \<Rightarrow> env" "performance_analytics option"
      "behavior_analytics option" "health_analytics option"
  | CleanupOldAnomalies int
  | CleanupOldInsights int
  | CleanupOldRecommendations int
  | ResolveAnomaly int string
  | MarkRecommendationImplemented int string "jsobject option"
  | LogChangeWithPerformance op_env string "thrown option" "LogChangeParams option"
  | TrackUserBehavior browser string "behavior_context option"
  | RecordSystemHealth health_env
  | LogChange log_env LogChangeParams

fun step :: "sys_op \<Rightarrow> system \<Rightarrow> system" where
  "step (AddAnomaly e d) s = s\<lparr>sys_engine := addAnomaly e d (sys_engine s)\<rparr>"
| "step (AddInsight e d) s = s\<lparr>sys_engine := addInsight e d (sys_engine s)\<rparr>"
| "step (AddRecommendation e d) s = s\<lparr>sys_engine := addRecommendation e d (sys_engine s)\<rparr>"
| "step (RunAnomalyDetection w p b h) s =
     s\<lparr>sys_engine := runAnomalyDetection w p b h (sys_engine s)\<rparr>"
| "step (CleanupOldAnomalies t) s = s\<lparr>sys_engine := cleanupOldAnomalies t (sys_engine s)\<rparr>"
| "step (CleanupOldInsights t) s = s\<lparr>sys_engine := cleanupOldInsights t (sys_engine s)\<rparr>"
| "step (CleanupOldRecommendations t) s =
     s\<lparr>sys_engine := cleanupOldRecommendations t (sys_engine s)\<rparr>"
| "step (ResolveAnomaly t i) s = s\<lparr>sys_engine := resolveAnomaly t i (sys_engine s)\<rparr>"
| "step (MarkRecommendationImplemented t i imp) s =
     s\<lparr>sys_engine := markRecommendationImplemented t i imp (sys_engine s)\<rparr>"
| "step (LogChangeWithPerformance e op failure cp) s =
     (let r = logChangeWithPerformance e op
                (case failure of None \<Rightarrow> Inr () | Some v \<Rightarrow> Inl v) cp
                (sys_logger s, sys_stored s)
      in s\<lparr>sys_logger := fst (snd r), sys_stored := snd (snd r)\<rparr>)"
| "step (TrackUserBehavior b act c) s =
     s\<lparr>sys_logger := snd (trackUserBehavior b act c (sys_logger s))\<rparr>"
| "step (RecordSystemHealth h) s =
     s\<lparr>sys_logger := recordSystemHealth h (sys_stored s) (sys_logger s)\<rparr>"
| "step (LogChange e params) s = s\<lparr>sys_stored := logChange e params (sys_stored s)\<rparr>"

text \<open>The state after construction: empty collections, and whatever the store holds.\<close>

definition initial :: "string \<Rightarrow> ChangeLogEntry list \<Rightarrow> system" where
  "initial session stored =
     \<lparr>sys_engine = new_engine, sys_logger = new_logger session, sys_stored = stored\<rparr>"

definition run_ops :: "sys_op list \<Rightarrow> system \<Rightarrow> system" where
  "run_ops ops s = foldl (\<lambda>s op. step op s) s ops"

definition within_caps :: "system \<Rightarrow> bool" where
  "within_caps s =
     (length (insights (sys_engine s)) \<le> 50
      \<and> length (anomalies (sys_engine s)) \<le> 100
      \<and> length (recommendations (sys_engine s)) \<le> 30
      \<and> length (performanceMetrics (sys_logger s)) \<le> 1000
      \<and> length (userBehaviorMetrics (sys_logger s)) \<le> 1000
      \<and> length (systemHealthMetrics (sys_logger s)) \<le> 1000)"

section \<open>Predicates and sample data for the statements\<close>

text \<open>The deduplication test of \<open>addAnomaly\<close>: same type, same title, not resolved.\<close>

definition unresolved_with :: "anomaly_type \<Rightarrow> string \<Rightarrow> anomaly \<Rightarrow> bool" where
  "unresolved_with ty ti a = (atype a = ty \<and> title a = ti \<and> \<not> autoResolved a)"

text \<open>Same type and same title, resolved or not.\<close>

definition with_key :: "anomaly_type \<Rightarrow> string \<Rightarrow> anomaly \<Rightarrow> bool" where
  "with_key ty ti a = (atype a = ty \<and> title a = ti)"

text \<open>
  The object the first rule of \<open>detectSystemHealthAnomalies\<close> passes to \<open>addAnomaly\<close>
  when \<open>currentHealth.memoryUsage\<close> is 90.
\<close>

definition high_memory_rule :: anomaly_data where
  "high_memory_rule = high_memory_anomaly 90"

text \<open>An environment with the given clock and id tail.\<close>

definition env_at :: "int \<Rightarrow> string \<Rightarrow> env" where
  "env_at t r = \<lparr>now = t, fresh = r\<rparr>"

text \<open>The engine after that rule has fired once on a new engine.\<close>

definition one_anomaly :: engine where
  "one_anomaly = addAnomaly (env_at 0 ''a'') high_memory_rule new_engine"

text \<open>The environment of the \<open>k\<close>-th call of a pass, and a payload with a slow average.\<close>

definition sample_world :: "nat \<Rightarrow> env" where
  "sample_world k = env_at (int k) ''r''"

definition spike_payload :: performance_analytics where
  "spike_payload =
     \<lparr>totalOperations = 4, successRate = 100, averageDuration = 2500, slowestOperations = [],
      errorPatterns = [], operationFrequency = [], performanceTrends = []\<rparr>"

text \<open>A collector whose health snapshots have the given memory usages, oldest first.\<close>

definition health_series :: "real list \<Rightarrow> logger" where
  "health_series ms =
     (new_logger ''s'')\<lparr>systemHealthMetrics :=
        map (\<lambda>m. \<lparr>timestamp = 0, cpuUsage = None, memoryUsage = m, activeUsers = 1,
                   operationsPerMinute = 0, errorRate = 0, averageResponseTime = 0,
                   databaseConnections = 1, cacheHitRate = None\<rparr>) ms\<rparr>"

text \<open>No sample is greater than the one before it: a constant or decreasing series.\<close>

definition non_increasing :: "real list \<Rightarrow> bool" where
  "non_increasing v = list_all (\<lambda>i. v ! i \<le> v ! (i - 1)) [1 ..< length v]"

text \<open>The deduplication tests of \<open>addInsight\<close> and \<open>addRecommendation\<close>.\<close>

definition insight_with :: "insight_type \<Rightarrow> string \<Rightarrow> insight \<Rightarrow> bool" where
  "insight_with ty ti i = (itype i = ty \<and> i_title i = ti)"

definition open_recommendation :: "category \<Rightarrow> string \<Rightarrow> recommendation \<Rightarrow> bool" where
  "open_recommendation c ti r = (category r = c \<and> r_title r = ti \<and> \<not> implemented r)"

text \<open>
  A performance payload whose hourly average durations and whose operation counts rise
  over the last three items.
\<close>

definition rising_payload :: performance_analytics where
  "rising_payload =
     \<lparr>totalOperations = 6, successRate = 100, averageDuration = 200, slowestOperations = [],
      errorPatterns = [],
      operationFrequency =
        [\<lparr>of_operation = ''a'', of_count = 1\<rparr>, \<lparr>of_operation = ''b'', of_count = 2\<rparr>,
         \<lparr>of_operation = ''c'', of_count = 3\<rparr>],
      performanceTrends =
        [\<lparr>trend_hour = ''h1'', pt_averageDuration = 100, operationCount = 2, pt_errorRate = 0\<rparr>,
         \<lparr>trend_hour = ''h2'', pt_averageDuration = 200, operationCount = 2, pt_errorRate = 0\<rparr>,
         \<lparr>trend_hour = ''h3'', pt_averageDuration = 300, operationCount = 2, pt_errorRate = 0\<rparr>]\<rparr>"

text \<open>
  A collector with one health snapshot, and the environment and the parameters of one
  wrapped operation.
\<close>

definition sample_snapshot :: SystemHealthMetrics where
  "sample_snapshot =
     \<lparr>timestamp = 0, cpuUsage = None, memoryUsage = 70, activeUsers = 1,
      operationsPerMinute = 4, errorRate = 5, averageResponseTime = 600,
      databaseConnections = 1, cacheHitRate = Some 50\<rparr>"

definition sample_logger :: logger where
  "sample_logger = (new_logger ''s'')\<lparr>systemHealthMetrics := [sample_snapshot]\<rparr>"

definition sample_op_env :: op_env where
  "sample_op_env =
     \<lparr>oe_fresh = ''1_x'', oe_startTime = 10, oe_endTime = 35, oe_startMemory = 1, oe_endMemory = 2,
      oe_log = \<lparr>le_now = 36, le_fresh = ''36_y'', le_window = True, le_throws = False\<rparr>\<rparr>"

definition sample_params :: LogChangeParams where
  "sample_params =
     \<lparr>lp_type = UPDATE, lp_operation = ''ASSIGN_TABLE'',
      guests = Some [\<lparr>guest_id = ''1'', guest_name = ''A'', guest_cabin = ''101''\<rparr>],
      changes = None, lp_method = MANUAL, userAction = ''assign'', batchId = None,
      fileName = None, errorDetails = None, affectedCount = None, additionalContext = []\<rparr>"

section \<open>Properties of the trend heuristic\<close>

lemma trend_loop_counts:
  "trend_loop v i acc = acc + length (filter (\<lambda>j. v ! j > v ! (j - 1)) [i ..< length v])"
proof (induction v i acc rule: trend_loop.induct)
  case (1 vals i increases)
  show ?case
  proof (cases "i < length vals")
    case True
    then have step: "[i ..< length vals] = i # [i + 1 ..< length vals]"
      by (simp add: upt_conv_Cons)
    from True "1.IH" show ?thesis
      by (subst trend_loop.simps) (simp add: step)
  next
    case False
    then show ?thesis
      by (subst trend_loop.simps) simp
  qed
qed

lemma trend_loop_increases: "trend_loop v (Suc 0) 0 = consecutive_increases v"
  by (simp add: trend_loop_counts consecutive_increases_def)

lemma consecutive_increases_le: "consecutive_increases v \<le> length v - 1"
proof -
  have "consecutive_increases v \<le> length [1 ..< length v]"
    unfolding consecutive_increases_def by (rule length_filter_le)
  then show ?thesis by simp
qed

lemma calculateTrendDirection_nonneg: "0 \<le> calculateTrendDirection v"
  by (simp add: calculateTrendDirection_def)

lemma calculateTrendDirection_le_100: "calculateTrendDirection v \<le> 100"
proof (cases "length v < 2")
  case True
  then show ?thesis by (simp add: calculateTrendDirection_def)
next
  case False
  define q where "q = real (consecutive_increases v) / real (length v - 1)"
  from False have pos: "0 < real (length v - 1)" by simp
  have "real (consecutive_increases v) \<le> real (length v - 1)"
    using consecutive_increases_le [of v] by (simp only: of_nat_le_iff)
  then have "q \<le> 1"
    unfolding q_def using pos by (simp only: divide_le_eq_1_pos)
  then have "q * 100 \<le> 100" by simp
  moreover have "calculateTrendDirection v = q * 100"
    using False by (simp add: calculateTrendDirection_def trend_loop_increases q_def)
  ultimately show ?thesis by simp
qed

lemma calculateTrendDirection_eq_spec: "calculateTrendDirection v = trend_direction_spec v"
  by (simp add: calculateTrendDirection_def trend_direction_spec_def trend_loop_increases)

text \<open>
  C6. For every list of at least two samples, \<open>calculateTrendDirection\<close> returns
  100 times the number of indices \<open>i\<close> with \<open>v[i] > v[i - 1]\<close>, divided by \<open>n - 1\<close>; for a
  list of fewer than two samples it returns 0. That is, the code computes the reference
  definition \<open>trend_direction_spec\<close>.
\<close>

theorem calculateTrendDirection_refines_spec:
  "calculateTrendDirection v = trend_direction_spec v"
  by (rule calculateTrendDirection_eq_spec)

text \<open>
  C10. The trend direction lies in the interval from 0 to 100 for every input list, so
  the branch \<open>trend < -10\<close> of \<open>calculateTrendStatus\<close> is never taken: a metric read with
  \<open>higherIsBetter = false\<close> is never labelled improving, and a metric read with
  \<open>higherIsBetter = true\<close> is never labelled declining.
\<close>

theorem trend_never_negative_labels:
  "0 \<le> calculateTrendDirection v \<and> calculateTrendDirection v \<le> 100
   \<and> \<not> calculateTrendDirection v < - 10
   \<and> calculateTrendStatus data field False \<noteq> improving
   \<and> calculateTrendStatus data field True \<noteq> declining"
proof -
  have neg: "\<not> calculateTrendDirection w < - 10" for w
    using calculateTrendDirection_nonneg [of w] by simp
  have a: "calculateTrendStatus data field False \<noteq> improving"
    by (simp add: calculateTrendStatus_def Let_def neg split: option.splits)
  have b: "calculateTrendStatus data field True \<noteq> declining"
    by (simp add: calculateTrendStatus_def Let_def neg split: option.splits)
  show ?thesis
    using calculateTrendDirection_nonneg [of v] calculateTrendDirection_le_100 [of v] a b
    by simp
qed

section \<open>Deduplication of anomalies\<close>

lemma slice_last_length: "length (slice_last n xs) = min n (length xs)"
  by (simp add: slice_last_def)

lemma slice_last_snoc:
  "0 < n \<Longrightarrow> slice_last n (xs @ [x]) = slice_last (n - 1) xs @ [x]"
  by (simp add: slice_last_def) 

lemma mk_anomaly_key [simp]:
  "atype (mk_anomaly e d) = atype d" "title (mk_anomaly e d) = title d"
  "autoResolved (mk_anomaly e d) = False"
  by (simp_all add: mk_anomaly_def)

lemma addAnomaly_cases:
  "addAnomaly e d s =
     (if \<exists>a\<in>set (anomalies s). unresolved_with (atype d) (title d) a then s
      else s\<lparr>anomalies := (if length (anomalies s) \<ge> 100
                              then slice_last 99 (anomalies s) else anomalies s) @ [mk_anomaly e d]\<rparr>)"
proof (cases "\<exists>a\<in>set (anomalies s). unresolved_with (atype d) (title d) a")
  case True
  then have "find (\<lambda>a. atype a = atype d \<and> title a = title d \<and> \<not> autoResolved a) (anomalies s) \<noteq> None"
    by (auto simp: find_None_iff unresolved_with_def)
  with True show ?thesis
    by (auto simp: addAnomaly_def Let_def split: option.splits)
next
  case False
  then have "find (\<lambda>a. atype a = atype d \<and> title a = title d \<and> \<not> autoResolved a) (anomalies s) = None"
    by (auto simp: find_None_iff unresolved_with_def)
  with False show ?thesis
    by (simp add: addAnomaly_def Let_def pruneAnomalies_def slice_last_snoc)
qed

lemma filter_slice_last_empty:
  "filter P xs = [] \<Longrightarrow> filter P (slice_last n xs) = []"
  unfolding slice_last_def filter_empty_conv by (meson in_set_dropD)

text \<open>
  C1 (amended). In every engine state that holds an unresolved anomaly with a given type
  and title, a rule firing with the same type and title leaves the engine unchanged.
  If a rule fires twice from a state with at most one unresolved anomaly of that type and
  title, the second firing changes nothing and the collection then holds exactly one
  unresolved anomaly with that type and title. Resolved anomalies with the same type and
  title are ignored by the test and may remain beside it.
\<close>

theorem addAnomaly_dedup:
  "((\<exists>a\<in>set (anomalies s). unresolved_with (atype d) (title d) a) \<longrightarrow> addAnomaly e d s = s)
   \<and> (atype d' = atype d \<and> title d' = title d
        \<and> length (filter (unresolved_with (atype d) (title d)) (anomalies s)) \<le> 1
      \<longrightarrow> addAnomaly e' d' (addAnomaly e d s) = addAnomaly e d s
          \<and> length (filter (unresolved_with (atype d) (title d))
                (anomalies (addAnomaly e' d' (addAnomaly e d s)))) = 1)"
proof (intro conjI impI)
  assume "\<exists>a\<in>set (anomalies s). unresolved_with (atype d) (title d) a"
  then show "addAnomaly e d s = s" by (simp add: addAnomaly_cases)
next
  assume h: "atype d' = atype d \<and> title d' = title d
        \<and> length (filter (unresolved_with (atype d) (title d)) (anomalies s)) \<le> 1"
  let ?P = "unresolved_with (atype d) (title d)"
  have one: "length (filter ?P (anomalies (addAnomaly e d s))) = 1"
  proof (cases "\<exists>a\<in>set (anomalies s). ?P a")
    case True
    then have "filter ?P (anomalies s) \<noteq> []" by (simp add: filter_empty_conv)
    then have "length (filter ?P (anomalies s)) \<noteq> 0" by simp
    with h have "length (filter ?P (anomalies s)) = 1" by linarith
    with True show ?thesis by (simp add: addAnomaly_cases)
  next
    case False
    then have emp: "filter ?P (anomalies s) = []" by (simp add: filter_empty_conv)
    have new: "?P (mk_anomaly e d)" by (simp add: unresolved_with_def)
    from False emp new show ?thesis
      by (simp add: addAnomaly_cases filter_slice_last_empty)
  qed
  then have "filter ?P (anomalies (addAnomaly e d s)) \<noteq> []" by auto
  then have ex: "\<exists>a\<in>set (anomalies (addAnomaly e d s)). unresolved_with (atype d') (title d') a"
    using h by (simp add: filter_empty_conv)
  then have same: "addAnomaly e' d' (addAnomaly e d s) = addAnomaly e d s"
    by (subst addAnomaly_cases) simp
  show "addAnomaly e' d' (addAnomaly e d s) = addAnomaly e d s" by (rule same)
  show "length (filter ?P (anomalies (addAnomaly e' d' (addAnomaly e d s)))) = 1"
    by (simp add: same one)
qed

text \<open>The law at the high-memory rule, fired on a new engine.\<close>

theorem addAnomaly_dedup_witness:
  "addAnomaly (env_at 2 ''b'') high_memory_rule (addAnomaly (env_at 1 ''a'') high_memory_rule new_engine)
     = addAnomaly (env_at 1 ''a'') high_memory_rule new_engine
   \<and> length (filter (unresolved_with capacity_issue ''High Memory Usage Detected'')
        (anomalies (addAnomaly (env_at 2 ''b'') high_memory_rule
           (addAnomaly (env_at 1 ''a'') high_memory_rule new_engine)))) = 1
   \<and> addAnomaly (env_at 3 ''c'') high_memory_rule (addAnomaly (env_at 1 ''a'') high_memory_rule new_engine)
     = addAnomaly (env_at 1 ''a'') high_memory_rule new_engine"
proof -
  have k: "atype high_memory_rule = capacity_issue" "title high_memory_rule = ''High Memory Usage Detected''"
    by (simp_all add: high_memory_rule_def high_memory_anomaly_def)
  have h0: "length (filter (unresolved_with (atype high_memory_rule) (title high_memory_rule)) (anomalies new_engine)) \<le> 1"
    by (simp add: new_engine_def)
  have h1: "\<exists>a\<in>set (anomalies (addAnomaly (env_at 1 ''a'') high_memory_rule new_engine)).
      unresolved_with (atype high_memory_rule) (title high_memory_rule) a"
    by (simp add: addAnomaly_def Let_def new_engine_def pruneAnomalies_def unresolved_with_def)
  let ?s1 = "addAnomaly (env_at 1 ''a'') high_memory_rule new_engine"
  have twice: "addAnomaly (env_at 2 ''b'') high_memory_rule ?s1 = ?s1
      \<and> length (filter (unresolved_with (atype high_memory_rule) (title high_memory_rule))
           (anomalies (addAnomaly (env_at 2 ''b'') high_memory_rule ?s1))) = 1"
    using addAnomaly_dedup [of new_engine high_memory_rule "env_at 1 ''a''" high_memory_rule "env_at 2 ''b''"] h0
    by blast
  have again: "addAnomaly (env_at 3 ''c'') high_memory_rule ?s1 = ?s1"
    using addAnomaly_dedup [of ?s1 high_memory_rule "env_at 3 ''c''"] h1
    by blast
  show ?thesis using twice again unfolding k by auto
qed

text \<open>
  The rule fires, the anomaly is resolved, and the rule fires twice more: the collection
  holds two anomalies with that type and title, the resolved one and a new one.
\<close>

theorem addAnomaly_dedup_counterexample:
  "length (filter (with_key capacity_issue ''High Memory Usage Detected'')
     (anomalies (addAnomaly (env_at 3 ''c'') high_memory_rule
        (addAnomaly (env_at 2 ''b'') high_memory_rule
           (resolveAnomaly 1 ''anomaly_a''
              (addAnomaly (env_at 0 ''a'') high_memory_rule new_engine)))))) = 2"
  by (simp add: addAnomaly_def Let_def new_engine_def pruneAnomalies_def with_key_def
      resolveAnomaly_def mk_anomaly_def env_at_def high_memory_rule_def high_memory_anomaly_def)

section \<open>Resolving an anomaly\<close>

lemma resolve_first_absent:
  "anomalyId \<notin> anomaly_id ` set xs \<Longrightarrow> resolve_first t anomalyId xs = xs"
  by (induction xs) auto

lemma resolve_first_present:
  "anomalyId \<in> anomaly_id ` set xs \<Longrightarrow>
   \<exists>i<length xs. anomaly_id (xs ! i) = anomalyId
      \<and> (\<forall>j<i. anomaly_id (xs ! j) \<noteq> anomalyId)
      \<and> resolve_first t anomalyId xs = xs[i := (xs ! i)\<lparr>autoResolved := True, resolvedAt := Some t\<rparr>]"
proof (induction xs)
  case Nil
  then show ?case by simp
next
  case (Cons a xs)
  show ?case
  proof (cases "anomaly_id a = anomalyId")
    case True
    then show ?thesis by (intro exI [of _ 0]) simp
  next
    case False
    with Cons.prems have "anomalyId \<in> anomaly_id ` set xs" by auto
    from Cons.IH [OF this] obtain i where i: "i < length xs" "anomaly_id (xs ! i) = anomalyId"
      "\<forall>j<i. anomaly_id (xs ! j) \<noteq> anomalyId"
      "resolve_first t anomalyId xs = xs[i := (xs ! i)\<lparr>autoResolved := True, resolvedAt := Some t\<rparr>]"
      by blast
    have "\<forall>j<Suc i. anomaly_id ((a # xs) ! j) \<noteq> anomalyId"
      using False i(3) by (auto simp: less_Suc_eq_0_disj)
    with i False show ?thesis by (intro exI [of _ "Suc i"]) simp
  qed
qed

lemma resolve_first_length: "length (resolve_first t anomalyId xs) = length xs"
  by (induction xs) auto

lemma resolve_first_again:
  "resolve_first t' anomalyId (resolve_first t anomalyId xs) = resolve_first t' anomalyId xs"
  by (induction xs) auto

text \<open>
  C3 (amended). \<open>resolveAnomaly\<close> on an id present in the collection sets
  \<open>autoResolved\<close> to true and \<open>resolvedAt\<close> to the current timestamp on the first anomaly with
  that id and leaves every other anomaly unchanged; on an absent id it changes nothing.
  Calling it again on the same id keeps the length of the collection and gives the state
  of a single call made at the later time: nothing is duplicated, and \<open>resolvedAt\<close> is
  overwritten with the later timestamp.
\<close>

theorem resolveAnomaly_transition:
  "(anomalyId \<in> anomaly_id ` set (anomalies s) \<longrightarrow>
      (\<exists>i<length (anomalies s).
          anomaly_id (anomalies s ! i) = anomalyId
        \<and> (\<forall>j<i. anomaly_id (anomalies s ! j) \<noteq> anomalyId)
        \<and> resolveAnomaly t anomalyId s =
            s\<lparr>anomalies := (anomalies s)
                [i := (anomalies s ! i)\<lparr>autoResolved := True, resolvedAt := Some t\<rparr>]\<rparr>))
   \<and> (anomalyId \<notin> anomaly_id ` set (anomalies s) \<longrightarrow> resolveAnomaly t anomalyId s = s)
   \<and> length (anomalies (resolveAnomaly t' anomalyId (resolveAnomaly t anomalyId s)))
        = length (anomalies s)
   \<and> resolveAnomaly t' anomalyId (resolveAnomaly t anomalyId s) = resolveAnomaly t' anomalyId s"
proof (intro conjI impI)
  assume "anomalyId \<in> anomaly_id ` set (anomalies s)"
  from resolve_first_present [OF this, of t]
  show "\<exists>i<length (anomalies s).
          anomaly_id (anomalies s ! i) = anomalyId
        \<and> (\<forall>j<i. anomaly_id (anomalies s ! j) \<noteq> anomalyId)
        \<and> resolveAnomaly t anomalyId s =
            s\<lparr>anomalies := (anomalies s)
                [i := (anomalies s ! i)\<lparr>autoResolved := True, resolvedAt := Some t\<rparr>]\<rparr>"
    by (auto simp: resolveAnomaly_def)
next
  assume "anomalyId \<notin> anomaly_id ` set (anomalies s)"
  then show "resolveAnomaly t anomalyId s = s"
    by (simp add: resolveAnomaly_def resolve_first_absent)
next
  show "length (anomalies (resolveAnomaly t' anomalyId (resolveAnomaly t anomalyId s)))
        = length (anomalies s)"
    by (simp add: resolveAnomaly_def resolve_first_length)
next
  show "resolveAnomaly t' anomalyId (resolveAnomaly t anomalyId s) = resolveAnomaly t' anomalyId s"
    by (simp add: resolveAnomaly_def resolve_first_again)
qed

lemma one_anomaly_eval:
  "anomalies one_anomaly = [mk_anomaly (env_at 0 ''a'') high_memory_rule]"
  by (simp add: one_anomaly_def addAnomaly_def Let_def new_engine_def pruneAnomalies_def)

text \<open>The transition on the one-anomaly engine, for its id and for an unknown id.\<close>

theorem resolveAnomaly_transition_witness:
  "map autoResolved (anomalies (resolveAnomaly 7 ''anomaly_a'' one_anomaly)) = [True]
   \<and> map resolvedAt (anomalies (resolveAnomaly 7 ''anomaly_a'' one_anomaly)) = [Some 7]
   \<and> resolveAnomaly 7 ''anomaly_zz'' one_anomaly = one_anomaly"
proof -
  have p: "''anomaly_a'' \<in> anomaly_id ` set (anomalies one_anomaly)"
    by (simp add: one_anomaly_eval mk_anomaly_def env_at_def)
  have q: "''anomaly_zz'' \<notin> anomaly_id ` set (anomalies one_anomaly)"
    by (simp add: one_anomaly_eval mk_anomaly_def env_at_def)
  from resolveAnomaly_transition [of "''anomaly_a''" one_anomaly 7] p
  obtain i where i: "i < length (anomalies one_anomaly)"
    "resolveAnomaly 7 ''anomaly_a'' one_anomaly =
       one_anomaly\<lparr>anomalies := (anomalies one_anomaly)
          [i := (anomalies one_anomaly ! i)\<lparr>autoResolved := True, resolvedAt := Some 7\<rparr>]\<rparr>"
    by blast
  from i(1) have i0: "i = 0" by (simp add: one_anomaly_eval)
  have r: "resolveAnomaly 7 ''anomaly_zz'' one_anomaly = one_anomaly"
    using resolveAnomaly_transition [of "''anomaly_zz''" one_anomaly 7] q by blast
  show ?thesis
    using i(2) r by (simp add: i0 one_anomaly_eval)
qed

text \<open>
  A second call at a later time is not a no-op: the state differs from the one after the
  first call (in \<open>resolvedAt\<close>).
\<close>

theorem resolveAnomaly_again_counterexample:
  "resolveAnomaly 9 ''anomaly_a'' (resolveAnomaly 7 ''anomaly_a'' one_anomaly)
     \<noteq> resolveAnomaly 7 ''anomaly_a'' one_anomaly"
proof
  assume "resolveAnomaly 9 ''anomaly_a'' (resolveAnomaly 7 ''anomaly_a'' one_anomaly)
     = resolveAnomaly 7 ''anomaly_a'' one_anomaly"
  then have "map resolvedAt (anomalies (resolveAnomaly 9 ''anomaly_a'' (resolveAnomaly 7 ''anomaly_a'' one_anomaly)))
     = map resolvedAt (anomalies (resolveAnomaly 7 ''anomaly_a'' one_anomaly))"
    by simp
  then show False
    by (simp add: resolveAnomaly_def one_anomaly_eval mk_anomaly_def env_at_def)
qed

section \<open>The performance score\<close>

lemma last_opt_nonempty: "xs \<noteq> [] \<Longrightarrow> last_opt xs = Some (last xs)"
  by (simp add: last_opt_def)

text \<open>
  C8. Whenever at least one system-health snapshot exists, the performance score equals
  100 - 2 * errorRate - max(0, (averageResponseTime - 500) / 10)
  - max(0, (memoryUsage - 50) / 2), computed from the most recent snapshot and clamped to
  the interval from 0 to 100.
\<close>

theorem calculatePerformanceScore_formula:
  assumes "systemHealthMetrics l \<noteq> []"
  shows "calculatePerformanceScore l =
           max 0 (min 100
             (100 - 2 * errorRate (last (systemHealthMetrics l))
                  - max 0 ((averageResponseTime (last (systemHealthMetrics l)) - 500) / 10)
                  - max 0 ((memoryUsage (last (systemHealthMetrics l)) - 50) / 2)))
         \<and> 0 \<le> calculatePerformanceScore l \<and> calculatePerformanceScore l \<le> 100"
proof -
  let ?c = "last (systemHealthMetrics l)"
  have a: "max 0 ((averageResponseTime ?c - 500) / 10)
             = (if averageResponseTime ?c > 500 then (averageResponseTime ?c - 500) / 10 else 0)"
    by simp
  have m: "max 0 ((memoryUsage ?c - 50) / 2)
             = (if memoryUsage ?c > 50 then (memoryUsage ?c - 50) / 2 else 0)"
    by simp
  have eq: "calculatePerformanceScore l =
           max 0 (min 100
             (100 - 2 * errorRate ?c
                  - max 0 ((averageResponseTime ?c - 500) / 10)
                  - max 0 ((memoryUsage ?c - 50) / 2)))"
    unfolding a m using assms
    by (simp add: calculatePerformanceScore_def last_opt_nonempty Let_def mult.commute)
  show ?thesis
    unfolding eq by simp
qed

theorem calculatePerformanceScore_formula_witness:
  "systemHealthMetrics sample_logger \<noteq> [] \<and> calculatePerformanceScore sample_logger = 70"
proof -
  have h: "systemHealthMetrics sample_logger \<noteq> []"
    by (simp add: sample_logger_def)
  have l: "last (systemHealthMetrics sample_logger) = sample_snapshot"
    by (simp add: sample_logger_def)
  show ?thesis
    using h calculatePerformanceScore_formula [OF h]
    by (simp add: l sample_snapshot_def)
qed

section \<open>The wrapper as a decorator\<close>

lemma slice_last_all: "length xs \<le> n \<Longrightarrow> slice_last n xs = xs"
  by (simp add: slice_last_def)

lemma pruneMetrics_performance:
  "performanceMetrics (pruneMetrics l) = slice_last 1000 (performanceMetrics l)"
  by (simp add: pruneMetrics_def Let_def slice_last_all)

lemma wrapper_outcome: "fst (logChangeWithPerformance e op w (Some cp) st) = w"
  by (cases w) (simp_all add: logChangeWithPerformance_def Let_def)

lemma wrapper_sample:
  "performanceMetrics (fst (snd (logChangeWithPerformance e op w (Some cp) (l, stored)))) =
     slice_last 1000 (performanceMetrics l @
       [mk_metrics e op cp (case w of Inl err \<Rightarrow> False | Inr r \<Rightarrow> True)
          (case w of Inl err \<Rightarrow> Some (classify err) | Inr r \<Rightarrow> None)])"
  by (cases w)
     (simp_all add: logChangeWithPerformance_def Let_def pruneMetrics_performance)

text \<open>
  C4 (amended). When \<open>changeParams\<close> is an object, the wrapper hands the outcome of the work
  to its caller unchanged, the result on success and the very value thrown on failure,
  and it appends exactly one sample to the performance series (which is then cut to its
  last 1000): with \<open>success = true\<close> and no \<open>errorType\<close> when the work succeeded; with
  \<open>success = false\<close> when it failed, and then \<open>errorType\<close> is the name of the constructor of
  a thrown \<open>Error\<close> and "UnknownError" for any other thrown value.
\<close>

theorem logChangeWithPerformance_decorator:
  assumes "logChangeWithPerformance e op w (Some cp) (l, stored) = (out, l', stored')"
  shows "out = w
     \<and> (\<exists>m. performanceMetrics l' = slice_last 1000 (performanceMetrics l @ [m])
            \<and> (length (performanceMetrics l) < 1000
                 \<longrightarrow> performanceMetrics l' = performanceMetrics l @ [m])
            \<and> operation m = op
            \<and> (case w of
                  Inr result \<Rightarrow> success m \<and> errorType m = None
                | Inl (ErrorInstance name message) \<Rightarrow> \<not> success m \<and> errorType m = Some name
                | Inl (OtherValue v) \<Rightarrow> \<not> success m \<and> errorType m = Some ''UnknownError''))"
proof -
  let ?m = "mk_metrics e op cp (case w of Inl err \<Rightarrow> False | Inr r \<Rightarrow> True)
          (case w of Inl err \<Rightarrow> Some (classify err) | Inr r \<Rightarrow> None)"
  have o: "out = w"
    using wrapper_outcome [of e op w cp "(l, stored)"] assms by simp
  have p: "performanceMetrics l' = slice_last 1000 (performanceMetrics l @ [?m])"
    using wrapper_sample [of e op w cp l stored] assms by simp
  have q: "length (performanceMetrics l) < 1000
                 \<longrightarrow> performanceMetrics l' = performanceMetrics l @ [?m]"
    by (simp add: p slice_last_all)
  have r: "operation ?m = op" by (simp add: mk_metrics_def)
  have t: "(case w of
                  Inr result \<Rightarrow> success ?m \<and> errorType ?m = None
                | Inl (ErrorInstance name message) \<Rightarrow> \<not> success ?m \<and> errorType ?m = Some name
                | Inl (OtherValue v) \<Rightarrow> \<not> success ?m \<and> errorType ?m = Some ''UnknownError'')"
    by (simp add: mk_metrics_def classify_def split: sum.splits thrown.splits)
  from p q r t have "\<exists>m. performanceMetrics l' = slice_last 1000 (performanceMetrics l @ [m])
            \<and> (length (performanceMetrics l) < 1000
                 \<longrightarrow> performanceMetrics l' = performanceMetrics l @ [m])
            \<and> operation m = op
            \<and> (case w of
                  Inr result \<Rightarrow> success m \<and> errorType m = None
                | Inl (ErrorInstance name message) \<Rightarrow> \<not> success m \<and> errorType m = Some name
                | Inl (OtherValue v) \<Rightarrow> \<not> success m \<and> errorType m = Some ''UnknownError'')"
    by blast
  with o show ?thesis by simp
qed

text \<open>
  A unit of work that throws a \<open>RangeError\<close>, and one that throws a string, each wrapped on
  the sample collector.
\<close>

theorem logChangeWithPerformance_decorator_witness:
  "fst (logChangeWithPerformance sample_op_env ''ASSIGN_TABLE''
          (Inl (ErrorInstance ''RangeError'' ''boom'') :: thrown + nat) (Some sample_params)
          (sample_logger, []))
     = Inl (ErrorInstance ''RangeError'' ''boom'')
   \<and> map success (performanceMetrics (fst (snd
        (logChangeWithPerformance sample_op_env ''ASSIGN_TABLE''
          (Inl (ErrorInstance ''RangeError'' ''boom'') :: thrown + nat) (Some sample_params)
          (sample_logger, [])))))
     = [False]
   \<and> map errorType (performanceMetrics (fst (snd
        (logChangeWithPerformance sample_op_env ''ASSIGN_TABLE''
          (Inl (ErrorInstance ''RangeError'' ''boom'') :: thrown + nat) (Some sample_params)
          (sample_logger, [])))))
     = [Some ''RangeError'']
   \<and> map errorType (performanceMetrics (fst (snd
        (logChangeWithPerformance sample_op_env ''ASSIGN_TABLE''
          (Inl (OtherValue ''oops'') :: thrown + nat) (Some sample_params)
          (sample_logger, [])))))
     = [Some ''UnknownError'']"
proof -
  let ?w = "Inl (ErrorInstance ''RangeError'' ''boom'') :: thrown + nat"
  let ?run = "logChangeWithPerformance sample_op_env ''ASSIGN_TABLE''
          ?w (Some sample_params) (sample_logger, [])"
  let ?v = "Inl (OtherValue ''oops'') :: thrown + nat"
  let ?other = "logChangeWithPerformance sample_op_env ''ASSIGN_TABLE''
          ?v (Some sample_params) (sample_logger, [])"
  have run: "?run = (fst ?run, fst (snd ?run), snd (snd ?run))" by simp
  have other: "?other = (fst ?other, fst (snd ?other), snd (snd ?other))" by simp
  have empty: "performanceMetrics sample_logger = []"
    by (simp add: sample_logger_def new_logger_def)
  from logChangeWithPerformance_decorator [OF run]
  obtain m where m: "fst ?run = ?w"
    "length (performanceMetrics sample_logger) < 1000
       \<longrightarrow> performanceMetrics (fst (snd ?run)) = performanceMetrics sample_logger @ [m]"
    "\<not> success m \<and> errorType m = Some ''RangeError''"
    by auto
  from m(2) empty have a: "performanceMetrics (fst (snd ?run)) = [m]" by simp
  from logChangeWithPerformance_decorator [OF other]
  obtain n where n:
    "length (performanceMetrics sample_logger) < 1000
       \<longrightarrow> performanceMetrics (fst (snd ?other)) = performanceMetrics sample_logger @ [n]"
    "errorType n = Some ''UnknownError''"
    by auto
  from n(1) empty have b: "performanceMetrics (fst (snd ?other)) = [n]" by simp
  from a b m(1) m(3) n(2) show ?thesis by simp
qed

text \<open>
  With \<open>changeParams\<close> undefined the work succeeds with the result 7, and the caller gets a
  \<open>TypeError\<close> instead of the result while no sample is pushed: the collector, whose
  performance series is empty, and the change log are as before.
\<close>

theorem logChangeWithPerformance_undefined_counterexample:
  "logChangeWithPerformance sample_op_env ''ASSIGN_TABLE'' (Inr (7 :: nat)) None (sample_logger, [])
     = (Inl (ErrorInstance ''TypeError'' ''affectedCount''), sample_logger, [])
   \<and> performanceMetrics sample_logger = []"
  by (simp add: logChangeWithPerformance_def property_type_error_def sample_logger_def
        new_logger_def)

section \<open>The detection pass\<close>

lemma adds_append: "adds (fs @ gs) s = adds gs (adds fs s)"
  by (induction fs arbitrary: s) simp_all

lemma detectPerformanceAnomalies_adds:
  "detectPerformanceAnomalies e1 e2 e3 p s = adds (performance_firings e1 e2 e3 p) s"
  by (simp add: detectPerformanceAnomalies_def performance_firings_def Let_def adds_append
           split: option.splits)

lemma detectBehaviorAnomalies_adds:
  "detectBehaviorAnomalies e1 e2 b s = adds (behavior_firings e1 e2 b) s"
  by (simp add: detectBehaviorAnomalies_def behavior_firings_def Let_def adds_append
           split: option.splits)

lemma detectSystemHealthAnomalies_adds:
  "detectSystemHealthAnomalies e1 e2 e3 h s = adds (health_firings e1 e2 e3 h) s"
  by (simp add: detectSystemHealthAnomalies_def health_firings_def Let_def adds_append
           split: option.splits)

lemma runAnomalyDetection_adds:
  "runAnomalyDetection w p b h s = cleanupOldAnomalies (now (w 8)) (adds (pass_firings w p b h) s)"
  by (simp add: runAnomalyDetection_def Let_def pass_firings_def adds_append
        detectPerformanceAnomalies_adds detectBehaviorAnomalies_adds
        detectSystemHealthAnomalies_adds)

lemma pass_firings_length: "length (pass_firings w p b h) \<le> 8"
  by (simp add: pass_firings_def performance_firings_def behavior_firings_def
        health_firings_def split: option.splits)

lemma slice_last_slice_last: "j \<le> n \<Longrightarrow> slice_last j (slice_last n xs) = slice_last j xs"
proof -
  assume "j \<le> n"
  then have "length xs - (length xs - n) - j + (length xs - n) = length xs - j"
    by arith
  then show ?thesis
    by (simp add: slice_last_def)
qed

lemma slice_last_mono: "j \<le> n \<Longrightarrow> set (slice_last j xs) \<subseteq> set (slice_last n xs)"
  unfolding slice_last_def by (rule set_drop_subset_set_drop) simp

lemma filter_drop_single:
  assumes "filter Q xs = [x]" and "x \<in> set (drop m xs)"
  shows "filter Q (drop m xs) = [x]"
proof -
  have "x \<in> set (filter Q xs)" using assms(1) by simp
  then have qx: "Q x" by simp
  have "filter Q (take m xs) @ filter Q (drop m xs) = [x]"
    using assms(1) by (metis append_take_drop_id filter_append)
  moreover have "filter Q (drop m xs) \<noteq> []"
    using assms(2) qx by (auto simp: filter_empty_conv)
  ultimately show ?thesis
    by (cases "filter Q (take m xs)") (auto simp: append_eq_Cons_conv)
qed

text \<open>
  An anomaly that is the only one with a property \<open>Q\<close> and sits among the last \<open>k + 1\<close>
  entries stays so, one place further from the end, when a rule without \<open>Q\<close> fires.
\<close>

lemma addAnomaly_keeps:
  assumes one: "filter Q (anomalies s) = [x]"
    and near: "x \<in> set (slice_last (Suc k) (anomalies s))"
    and other: "\<not> Q (mk_anomaly e d)"
    and room: "Suc k \<le> 99"
  shows "filter Q (anomalies (addAnomaly e d s)) = [x]
       \<and> x \<in> set (slice_last (Suc (Suc k)) (anomalies (addAnomaly e d s)))"
proof (cases "\<exists>a\<in>set (anomalies s). unresolved_with (atype d) (title d) a")
  case True
  then have "addAnomaly e d s = s" by (simp add: addAnomaly_cases)
  moreover have "x \<in> set (slice_last (Suc (Suc k)) (anomalies s))"
    using near slice_last_mono [of "Suc k" "Suc (Suc k)" "anomalies s"] by auto
  ultimately show ?thesis using one by simp
next
  case False
  define ys where "ys = (if length (anomalies s) \<ge> 100 then slice_last 99 (anomalies s) else anomalies s)"
  have eq: "anomalies (addAnomaly e d s) = ys @ [mk_anomaly e d]"
    using False by (simp add: addAnomaly_cases ys_def)
  have sl: "slice_last (Suc k) ys = slice_last (Suc k) (anomalies s)"
    using room by (simp add: ys_def slice_last_slice_last)
  have x_ys: "x \<in> set (slice_last (Suc k) ys)" using near sl by simp
  then have x_in: "x \<in> set ys" by (auto simp: slice_last_def dest: in_set_dropD)
  have "x \<in> set (drop (length (anomalies s) - 99) (anomalies s))"
    using near slice_last_mono [OF room, of "anomalies s"] by (auto simp: slice_last_def)
  then have "filter Q (slice_last 99 (anomalies s)) = [x]"
    unfolding slice_last_def using one by (rule filter_drop_single [rotated])
  then have f_ys: "filter Q ys = [x]" using one by (simp add: ys_def)
  have "slice_last (Suc (Suc k)) (ys @ [mk_anomaly e d]) = slice_last (Suc k) ys @ [mk_anomaly e d]"
    by (simp add: slice_last_def)
  then show ?thesis
    using f_ys other x_ys by (simp add: eq)
qed

lemma adds_keeps:
  assumes "filter Q (anomalies s) = [x]"
    and "x \<in> set (slice_last (Suc k) (anomalies s))"
    and "\<forall>f\<in>set fs. \<not> Q (mk_anomaly (fst f) (snd f))"
    and "k + length fs \<le> 98"
  shows "filter Q (anomalies (adds fs s)) = [x]"
  using assms
proof (induction fs arbitrary: s k)
  case Nil
  then show ?case by simp
next
  case (Cons f fs)
  from Cons.prems have room: "Suc k \<le> 99" by simp
  from Cons.prems have other: "\<not> Q (mk_anomaly (fst f) (snd f))" by simp
  note step = addAnomaly_keeps [OF Cons.prems(1) Cons.prems(2) other room]
  have "filter Q (anomalies (adds fs (addAnomaly (fst f) (snd f) s))) = [x]"
    using Cons.prems by (intro Cons.IH [of _ "Suc k"]) (simp_all add: step)
  then show ?case by simp
qed

lemma addAnomaly_first:
  assumes "filter Q (anomalies s) = []"
    and "Q (mk_anomaly e d)"
    and "\<not> (\<exists>a\<in>set (anomalies s). unresolved_with (atype d) (title d) a)"
  shows "filter Q (anomalies (addAnomaly e d s)) = [mk_anomaly e d]
       \<and> mk_anomaly e d \<in> set (slice_last (Suc 0) (anomalies (addAnomaly e d s)))"
proof -
  have cut: "filter Q (slice_last 99 (anomalies s)) = []"
    using assms(1) by (rule filter_slice_last_empty)
  have last1: "slice_last (Suc 0) (ys @ [mk_anomaly e d]) = [mk_anomaly e d]" for ys
    by (simp add: slice_last_def)
  show ?thesis
    using assms cut by (simp add: addAnomaly_cases last1)
qed

lemma cleanup_keeps:
  assumes "filter Q (anomalies s) = [x]" and "\<not> autoResolved x"
  shows "filter Q (anomalies (cleanupOldAnomalies t s)) = [x]"
proof -
  let ?P = "\<lambda>anomaly. detectedAt anomaly > t - 24 * 60 * 60 * 1000 \<or> \<not> autoResolved anomaly"
  have "filter Q (filter ?P (anomalies s)) = filter ?P (filter Q (anomalies s))"
    by (simp add: conj_commute)
  then show ?thesis
    using assms by (simp add: cleanupOldAnomalies_def Let_def)
qed

lemma other_rules_not_spike:
  assumes "f \<in> set (behavior_firings e1 e2 b) \<union> set (health_firings e3 e4 e5 h)"
  shows "atype (snd f) \<noteq> performance_spike"
  using assms
  by (auto simp: behavior_firings_def health_firings_def error_paths_anomaly_def
        unusual_peaks_anomaly_def high_memory_anomaly_def error_rate_anomaly_def
        memory_trend_anomaly_def split: option.splits if_splits)

lemma spike_pass_firings:
  assumes "averageDuration p = 2500"
  shows "\<exists>rest. pass_firings w (Some p) b h = (w 0, performance_spike_anomaly 2500) # rest
      \<and> length rest \<le> 7 \<and> (\<forall>f\<in>set rest. atype (snd f) \<noteq> performance_spike)"
proof -
  define rest where "rest =
      (if length (errorPatterns p) > 0
                \<and> foldl (\<lambda>sum pat. sum + ep_count pat) 0 (errorPatterns p) > 10
             then [(w 1, error_burst_anomaly
                          (foldl (\<lambda>sum pat. sum + ep_count pat) 0 (errorPatterns p))
                          (length (errorPatterns p)))]
             else [])
          @ (if length (performanceTrends p) > 5
                \<and> calculateTrendDirection
                     (map pt_averageDuration (slice_last 5 (performanceTrends p))) > 50
             then [(w 2, degradation_trend_anomaly
                          (calculateTrendDirection
                             (map pt_averageDuration (slice_last 5 (performanceTrends p)))))]
             else [])
          @ behavior_firings (w 3) (w 4) b @ health_firings (w 5) (w 6) (w 7) h"
  have a: "pass_firings w (Some p) b h = (w 0, performance_spike_anomaly 2500) # rest"
    using assms by (simp add: pass_firings_def performance_firings_def rest_def)
  have "length (pass_firings w (Some p) b h) \<le> 8" by (rule pass_firings_length)
  then have l: "length rest \<le> 7" by (simp add: a)
  have t: "\<forall>f\<in>set rest. atype (snd f) \<noteq> performance_spike"
    using other_rules_not_spike [of _ "w 3" "w 4" b "w 5" "w 6" "w 7" h]
    by (auto simp: rest_def error_burst_anomaly_def degradation_trend_anomaly_def)
  from a l t show ?thesis by blast
qed

text \<open>
  C2. If the performance payload reports \<open>averageDuration = 2500\<close> and the engine holds no
  unresolved anomaly with type \<open>performance_spike\<close> and title "Performance Degradation
  Detected", then one run of the anomaly-detection pass adds exactly one anomaly of type
  \<open>performance_spike\<close>: it is the only anomaly of that type that was not there before and
  the only unresolved one with that type and title, and it has severity \<open>high\<close>, confidence 95,
  \<open>current.averageDuration = 2500\<close>, \<open>baseline.averageDuration = 800\<close> and deviation
  ((2500 - 800) / 800) * 100.
\<close>

theorem performance_spike_scenario:
  assumes "averageDuration p = 2500"
    and "\<not> (\<exists>a\<in>set (anomalies s).
             unresolved_with performance_spike ''Performance Degradation Detected'' a)"
  shows "filter (\<lambda>a. atype a = performance_spike \<and> a \<notin> set (anomalies s))
           (anomalies (runAnomalyDetection w (Some p) b h s))
           = [mk_anomaly (w 0) (performance_spike_anomaly 2500)]
     \<and> filter (unresolved_with performance_spike ''Performance Degradation Detected'')
           (anomalies (runAnomalyDetection w (Some p) b h s))
           = [mk_anomaly (w 0) (performance_spike_anomaly 2500)]
     \<and> atype (mk_anomaly (w 0) (performance_spike_anomaly 2500)) = performance_spike
     \<and> severity (mk_anomaly (w 0) (performance_spike_anomaly 2500)) = high
     \<and> confidence (mk_anomaly (w 0) (performance_spike_anomaly 2500)) = 95
     \<and> title (mk_anomaly (w 0) (performance_spike_anomaly 2500)) = ''Performance Degradation Detected''
     \<and> current (mk_anomaly (w 0) (performance_spike_anomaly 2500)) = [(''averageDuration'', 2500)]
     \<and> baseline (mk_anomaly (w 0) (performance_spike_anomaly 2500)) = [(''averageDuration'', 800)]
     \<and> deviation (mk_anomaly (w 0) (performance_spike_anomaly 2500)) = ((2500 - 800) / 800) * 100
     \<and> \<not> autoResolved (mk_anomaly (w 0) (performance_spike_anomaly 2500))"
proof -
  let ?x = "mk_anomaly (w 0) (performance_spike_anomaly 2500)"
  let ?new = "\<lambda>a. atype a = performance_spike \<and> a \<notin> set (anomalies s)"
  let ?open = "unresolved_with performance_spike ''Performance Degradation Detected''"
  from spike_pass_firings [OF assms(1), of w b h] obtain rest where
    fs: "pass_firings w (Some p) b h = (w 0, performance_spike_anomaly 2500) # rest"
    and len: "length rest \<le> 7"
    and types: "\<forall>f\<in>set rest. atype (snd f) \<noteq> performance_spike"
    by blast
  have key: "atype (performance_spike_anomaly 2500) = performance_spike"
    "title (performance_spike_anomaly 2500) = ''Performance Degradation Detected''"
    by (simp_all add: performance_spike_anomaly_def)
  have open_x: "?open ?x" by (simp add: unresolved_with_def key)
  have fresh_x: "?x \<notin> set (anomalies s)" using assms(2) open_x by blast
  have none: "\<not> (\<exists>a\<in>set (anomalies s).
      unresolved_with (atype (performance_spike_anomaly 2500)) (title (performance_spike_anomaly 2500)) a)"
    using assms(2) by (simp add: key)
  have run: "runAnomalyDetection w (Some p) b h s =
      cleanupOldAnomalies (now (w 8)) (adds rest (addAnomaly (w 0) (performance_spike_anomaly 2500) s))"
    by (simp add: runAnomalyDetection_adds fs)
  have k: "0 + length rest \<le> 98" using len by simp
  have unresolved: "\<not> autoResolved ?x" by simp
  \<comment> \<open>the only new anomaly of the type\<close>
  have "filter ?new (anomalies s) = []" by (simp add: filter_empty_conv)
  moreover have "?new ?x" using fresh_x by (simp add: key)
  ultimately have first_new: "filter ?new (anomalies (addAnomaly (w 0) (performance_spike_anomaly 2500) s)) = [?x]
       \<and> ?x \<in> set (slice_last (Suc 0) (anomalies (addAnomaly (w 0) (performance_spike_anomaly 2500) s)))"
    using none by (intro addAnomaly_first)
  have "\<forall>f\<in>set rest. \<not> ?new (mk_anomaly (fst f) (snd f))" using types by simp
  with first_new k have "filter ?new (anomalies (adds rest (addAnomaly (w 0) (performance_spike_anomaly 2500) s))) = [?x]"
    by (intro adds_keeps [where k = 0]) simp_all
  then have a: "filter ?new (anomalies (runAnomalyDetection w (Some p) b h s)) = [?x]"
    unfolding run using unresolved by (rule cleanup_keeps)
  \<comment> \<open>the only unresolved anomaly with the type and title\<close>
  have "filter ?open (anomalies s) = []" using assms(2) by (simp add: filter_empty_conv)
  with open_x none have first_open: "filter ?open (anomalies (addAnomaly (w 0) (performance_spike_anomaly 2500) s)) = [?x]
       \<and> ?x \<in> set (slice_last (Suc 0) (anomalies (addAnomaly (w 0) (performance_spike_anomaly 2500) s)))"
    by (intro addAnomaly_first)
  have "\<forall>f\<in>set rest. \<not> ?open (mk_anomaly (fst f) (snd f))"
    using types by (simp add: unresolved_with_def)
  with first_open k have "filter ?open (anomalies (adds rest (addAnomaly (w 0) (performance_spike_anomaly 2500) s))) = [?x]"
    by (intro adds_keeps [where k = 0]) simp_all
  then have b: "filter ?open (anomalies (runAnomalyDetection w (Some p) b h s)) = [?x]"
    unfolding run using unresolved by (rule cleanup_keeps)
  have fields: "severity ?x = high" "confidence ?x = 95"
    "current ?x = [(''averageDuration'', 2500)]" "baseline ?x = [(''averageDuration'', 800)]"
    "deviation ?x = ((2500 - 800) / 800) * 100"
    by (simp_all add: mk_anomaly_def performance_spike_anomaly_def)
  show ?thesis
    using a b fields key unresolved by simp
qed

text \<open>The scenario on a new engine, with no behaviour and no health payload.\<close>

theorem performance_spike_scenario_witness:
  "averageDuration spike_payload = 2500
   \<and> filter (unresolved_with performance_spike ''Performance Degradation Detected'')
        (anomalies (runAnomalyDetection sample_world (Some spike_payload) None None new_engine))
      = [mk_anomaly (sample_world 0) (performance_spike_anomaly 2500)]"
proof -
  have h1: "averageDuration spike_payload = 2500" by (simp add: spike_payload_def)
  have h2: "\<not> (\<exists>a\<in>set (anomalies new_engine).
             unresolved_with performance_spike ''Performance Degradation Detected'' a)"
    by (simp add: new_engine_def)
  show ?thesis
    using h1 performance_spike_scenario [OF h1 h2, of sample_world None None] by simp
qed

section \<open>The memory trend\<close>

lemma addAnomaly_set:
  "set (anomalies (addAnomaly e d s)) \<subseteq> insert (mk_anomaly e d) (set (anomalies s))"
  by (auto simp: addAnomaly_cases slice_last_def dest: in_set_dropD)

lemma adds_inv:
  assumes "\<forall>a\<in>set (anomalies s). R a" and "\<forall>f\<in>set fs. R (mk_anomaly (fst f) (snd f))"
  shows "\<forall>a\<in>set (anomalies (adds fs s)). R a"
  using assms
proof (induction fs arbitrary: s)
  case Nil
  then show ?case by simp
next
  case (Cons f fs)
  have step: "\<forall>a\<in>set (anomalies (addAnomaly (fst f) (snd f) s)). R a"
  proof
    fix a assume "a \<in> set (anomalies (addAnomaly (fst f) (snd f) s))"
    then have "a = mk_anomaly (fst f) (snd f) \<or> a \<in> set (anomalies s)"
      using addAnomaly_set [of "fst f" "snd f" s] by blast
    then show "R a" using Cons.prems by auto
  qed
  have rest: "\<forall>g\<in>set fs. R (mk_anomaly (fst g) (snd g))" using Cons.prems(2) by simp
  from Cons.IH [OF step rest] show ?case by simp
qed

lemma addAnomaly_ensures:
  "\<exists>a\<in>set (anomalies (addAnomaly e d s)). unresolved_with (atype d) (title d) a"
proof (cases "\<exists>a\<in>set (anomalies s). unresolved_with (atype d) (title d) a")
  case True
  then show ?thesis by (simp add: addAnomaly_cases)
next
  case False
  have "unresolved_with (atype d) (title d) (mk_anomaly e d)" by (simp add: unresolved_with_def)
  with False show ?thesis by (simp add: addAnomaly_cases)
qed

lemma cleanup_retains:
  "a \<in> set (anomalies s) \<Longrightarrow> \<not> autoResolved a \<Longrightarrow> a \<in> set (anomalies (cleanupOldAnomalies t s))"
  by (simp add: cleanupOldAnomalies_def Let_def)

lemma cleanup_subset: "set (anomalies (cleanupOldAnomalies t s)) \<subseteq> set (anomalies s)"
  by (auto simp: cleanupOldAnomalies_def Let_def)

lemma non_increasing_trend: "non_increasing v \<Longrightarrow> calculateTrendDirection v = 0"
proof -
  assume "non_increasing v"
  then have "\<forall>i\<in>set [1 ..< length v]. \<not> v ! i > v ! (i - 1)"
    by (auto simp: non_increasing_def list_all_iff)
  then have "consecutive_increases v = 0"
    unfolding consecutive_increases_def by (simp add: filter_empty_conv)
  then show ?thesis
    by (simp add: calculateTrendDirection_eq_spec trend_direction_spec_def)
qed

lemma earlier_rules_other_title:
  assumes "f \<in> set (performance_firings e1 e2 e3 p) \<union> set (behavior_firings e4 e5 b)"
  shows "title (snd f) \<noteq> ''Memory Usage Trending Upward''"
  using assms
  by (auto simp: performance_firings_def behavior_firings_def performance_spike_anomaly_def
        error_burst_anomaly_def degradation_trend_anomaly_def error_paths_anomaly_def
        unusual_peaks_anomaly_def split: option.splits if_splits)

lemma rising_pass_firings:
  assumes "currentHealth h \<noteq> None" and "length (resourceUsage h) > 5"
    and "calculateTrendDirection (map ru_memoryUsage (slice_last 5 (resourceUsage h))) = 100"
  shows "\<exists>before. pass_firings w p b (Some h) = before @ [(w 7, memory_trend_anomaly 100)]
      \<and> (\<forall>f\<in>set before. title (snd f) \<noteq> ''Memory Usage Trending Upward'')"
proof -
  from assms(1) obtain cur where cur: "currentHealth h = Some cur" by auto
  define before where "before =
      performance_firings (w 0) (w 1) (w 2) p @ behavior_firings (w 3) (w 4) b
      @ (if memoryUsage cur > 80 then [(w 5, high_memory_anomaly (memoryUsage cur))] else [])
      @ (if errorRate cur > 5 then [(w 6, error_rate_anomaly (errorRate cur))] else [])"
  have a: "pass_firings w p b (Some h) = before @ [(w 7, memory_trend_anomaly 100)]"
    using assms(2,3) cur by (simp add: pass_firings_def health_firings_def before_def)
  have t: "\<forall>f\<in>set before. title (snd f) \<noteq> ''Memory Usage Trending Upward''"
    using earlier_rules_other_title [of _ "w 0" "w 1" "w 2" p "w 3" "w 4" b]
    by (auto simp: before_def high_memory_anomaly_def error_rate_anomaly_def)
  from a t show ?thesis by blast
qed

lemma flat_pass_firings:
  assumes "calculateTrendDirection (map ru_memoryUsage (slice_last 5 (resourceUsage h))) = 0"
  shows "\<forall>f\<in>set (pass_firings w p b (Some h)). title (snd f) \<noteq> ''Memory Usage Trending Upward''"
proof -
  have "\<forall>f\<in>set (health_firings (w 5) (w 6) (w 7) (Some h)).
          title (snd f) \<noteq> ''Memory Usage Trending Upward''"
    using assms
    by (auto simp: health_firings_def high_memory_anomaly_def error_rate_anomaly_def
          split: option.splits if_splits)
  then show ?thesis
    using earlier_rules_other_title [of _ "w 0" "w 1" "w 2" p "w 3" "w 4" b]
    by (auto simp: pass_firings_def)
qed

lemma rising_five: "calculateTrendDirection [50, 60, 70, 80, 90] = 100"
  by (simp add: calculateTrendDirection_def trend_loop.simps)

text \<open>
  C5 (amended). The trend direction of [50, 60, 70, 80, 90] is 100. When the health
  payload has a current snapshot and more than five resource-usage entries, the last five
  with these memory usages, the collection after the anomaly-detection pass holds an
  unresolved anomaly of type \<open>capacity_issue\<close> titled "Memory Usage Trending Upward"; if
  none was there before, it is the one this pass adds, with deviation 100. When the last
  five (or fewer) memory usages never increase, the trend direction is 0 and every anomaly
  with that type and title after the pass was already there before it.
\<close>

theorem memory_trend_scenario:
  "calculateTrendDirection [50, 60, 70, 80, 90] = 100
   \<and> (currentHealth h \<noteq> None \<and> length (resourceUsage h) > 5
        \<and> map ru_memoryUsage (slice_last 5 (resourceUsage h)) = [50, 60, 70, 80, 90]
      \<longrightarrow> (\<exists>a\<in>set (anomalies (runAnomalyDetection w p b (Some h) s)).
              unresolved_with capacity_issue ''Memory Usage Trending Upward'' a)
          \<and> (\<not> (\<exists>a\<in>set (anomalies s).
                   unresolved_with capacity_issue ''Memory Usage Trending Upward'' a)
             \<longrightarrow> mk_anomaly (w 7) (memory_trend_anomaly 100)
                   \<in> set (anomalies (runAnomalyDetection w p b (Some h) s))
                 \<and> deviation (mk_anomaly (w 7) (memory_trend_anomaly 100)) = 100))
   \<and> (non_increasing (map ru_memoryUsage (slice_last 5 (resourceUsage h)))
      \<longrightarrow> calculateTrendDirection (map ru_memoryUsage (slice_last 5 (resourceUsage h))) = 0
          \<and> (\<forall>a\<in>set (anomalies (runAnomalyDetection w p b (Some h) s)).
                with_key capacity_issue ''Memory Usage Trending Upward'' a
                \<longrightarrow> a \<in> set (anomalies s)))"
proof (intro conjI impI)
  show "calculateTrendDirection [50, 60, 70, 80, 90] = 100" by (rule rising_five)
next
  assume hyp: "currentHealth h \<noteq> None \<and> length (resourceUsage h) > 5
        \<and> map ru_memoryUsage (slice_last 5 (resourceUsage h)) = [50, 60, 70, 80, 90]"
  then have trend: "calculateTrendDirection (map ru_memoryUsage (slice_last 5 (resourceUsage h))) = 100"
    by (simp add: rising_five)
  from rising_pass_firings [of h w p b] hyp trend obtain before where
    fs: "pass_firings w p b (Some h) = before @ [(w 7, memory_trend_anomaly 100)]"
    by blast
  let ?s0 = "adds before s"
  have run: "runAnomalyDetection w p b (Some h) s =
      cleanupOldAnomalies (now (w 8)) (addAnomaly (w 7) (memory_trend_anomaly 100) ?s0)"
    by (simp add: runAnomalyDetection_adds fs adds_append)
  have key: "atype (memory_trend_anomaly 100) = capacity_issue"
    "title (memory_trend_anomaly 100) = ''Memory Usage Trending Upward''"
    by (simp_all add: memory_trend_anomaly_def)
  from addAnomaly_ensures [of "w 7" "memory_trend_anomaly 100" ?s0] obtain a where
    a: "a \<in> set (anomalies (addAnomaly (w 7) (memory_trend_anomaly 100) ?s0))"
       "unresolved_with capacity_issue ''Memory Usage Trending Upward'' a"
    by (auto simp: key)
  from a(2) have "\<not> autoResolved a" by (simp add: unresolved_with_def)
  with a(1) have "a \<in> set (anomalies (runAnomalyDetection w p b (Some h) s))"
    unfolding run by (rule cleanup_retains)
  with a(2) show "\<exists>a\<in>set (anomalies (runAnomalyDetection w p b (Some h) s)).
              unresolved_with capacity_issue ''Memory Usage Trending Upward'' a"
    by blast
next
  assume hyp: "currentHealth h \<noteq> None \<and> length (resourceUsage h) > 5
        \<and> map ru_memoryUsage (slice_last 5 (resourceUsage h)) = [50, 60, 70, 80, 90]"
    and none: "\<not> (\<exists>a\<in>set (anomalies s).
                   unresolved_with capacity_issue ''Memory Usage Trending Upward'' a)"
  from hyp have trend: "calculateTrendDirection (map ru_memoryUsage (slice_last 5 (resourceUsage h))) = 100"
    by (simp add: rising_five)
  from rising_pass_firings [of h w p b] hyp trend obtain before where
    fs: "pass_firings w p b (Some h) = before @ [(w 7, memory_trend_anomaly 100)]"
    and titles: "\<forall>f\<in>set before. title (snd f) \<noteq> ''Memory Usage Trending Upward''"
    by blast
  let ?s0 = "adds before s"
  let ?R = "\<lambda>a. \<not> unresolved_with capacity_issue ''Memory Usage Trending Upward'' a"
  have run: "runAnomalyDetection w p b (Some h) s =
      cleanupOldAnomalies (now (w 8)) (addAnomaly (w 7) (memory_trend_anomaly 100) ?s0)"
    by (simp add: runAnomalyDetection_adds fs adds_append)
  have key: "atype (memory_trend_anomaly 100) = capacity_issue"
    "title (memory_trend_anomaly 100) = ''Memory Usage Trending Upward''"
    by (simp_all add: memory_trend_anomaly_def)
  have "\<forall>a\<in>set (anomalies s). ?R a" using none by blast
  moreover have "\<forall>f\<in>set before. ?R (mk_anomaly (fst f) (snd f))"
    using titles by (simp add: unresolved_with_def)
  ultimately have "\<forall>a\<in>set (anomalies ?s0). ?R a" by (rule adds_inv)
  then have "mk_anomaly (w 7) (memory_trend_anomaly 100)
      \<in> set (anomalies (addAnomaly (w 7) (memory_trend_anomaly 100) ?s0))"
    by (simp add: addAnomaly_cases key)
  then show "mk_anomaly (w 7) (memory_trend_anomaly 100)
                   \<in> set (anomalies (runAnomalyDetection w p b (Some h) s))"
    unfolding run by (rule cleanup_retains) simp
  show "deviation (mk_anomaly (w 7) (memory_trend_anomaly 100)) = 100"
    by (simp add: mk_anomaly_def memory_trend_anomaly_def)
next
  assume "non_increasing (map ru_memoryUsage (slice_last 5 (resourceUsage h)))"
  then show "calculateTrendDirection (map ru_memoryUsage (slice_last 5 (resourceUsage h))) = 0"
    by (rule non_increasing_trend)
next
  assume "non_increasing (map ru_memoryUsage (slice_last 5 (resourceUsage h)))"
  then have flat: "calculateTrendDirection (map ru_memoryUsage (slice_last 5 (resourceUsage h))) = 0"
    by (rule non_increasing_trend)
  let ?R = "\<lambda>a. with_key capacity_issue ''Memory Usage Trending Upward'' a \<longrightarrow> a \<in> set (anomalies s)"
  have "\<forall>a\<in>set (anomalies s). ?R a" by simp
  moreover have "\<forall>f\<in>set (pass_firings w p b (Some h)). ?R (mk_anomaly (fst f) (snd f))"
    using flat_pass_firings [OF flat, of w p b] by (simp add: with_key_def)
  ultimately have "\<forall>a\<in>set (anomalies (adds (pass_firings w p b (Some h)) s)). ?R a"
    by (rule adds_inv)
  then show "\<forall>a\<in>set (anomalies (runAnomalyDetection w p b (Some h) s)).
                with_key capacity_issue ''Memory Usage Trending Upward'' a
                \<longrightarrow> a \<in> set (anomalies s)"
    using cleanup_subset [of "now (w 8)" "adds (pass_firings w p b (Some h)) s"]
    by (auto simp: runAnomalyDetection_adds)
qed

lemma health_series_usage:
  "length ms \<le> 24 \<Longrightarrow>
   map ru_memoryUsage (resourceUsage (getSystemHealthAnalytics (health_series ms))) = ms"
  by (simp add: getSystemHealthAnalytics_def getResourceUsageTrends_def health_series_def
        slice_last_all comp_def)

lemma health_series_current:
  "ms \<noteq> [] \<Longrightarrow> currentHealth (getSystemHealthAnalytics (health_series ms)) \<noteq> None"
  by (simp add: getSystemHealthAnalytics_def health_series_def last_opt_def)

text \<open>
  Six snapshots that end in the rising five, on a new engine; and six falling ones.
\<close>

theorem memory_trend_scenario_witness:
  "mk_anomaly (sample_world 7) (memory_trend_anomaly 100)
     \<in> set (anomalies (runAnomalyDetection sample_world None None
         (Some (getSystemHealthAnalytics (health_series [40, 50, 60, 70, 80, 90]))) new_engine))
   \<and> calculateTrendDirection (map ru_memoryUsage (slice_last 5
        (resourceUsage (getSystemHealthAnalytics (health_series [90, 80, 70, 60, 50, 40]))))) = 0"
proof -
  let ?up = "getSystemHealthAnalytics (health_series [40, 50, 60, 70, 80, 90])"
  let ?down = "getSystemHealthAnalytics (health_series [90, 80, 70, 60, 50, 40])"
  have len: "length (resourceUsage ?up) = 6"
    using arg_cong [OF health_series_usage [of "[40, 50, 60, 70, 80, 90]"], of length] by simp
  have up: "currentHealth ?up \<noteq> None \<and> length (resourceUsage ?up) > 5
        \<and> map ru_memoryUsage (slice_last 5 (resourceUsage ?up)) = [50, 60, 70, 80, 90]"
    using health_series_usage [of "[40, 50, 60, 70, 80, 90]"]
      health_series_current [of "[40, 50, 60, 70, 80, 90]"] len
    by (simp add: slice_last_def drop_map [symmetric])
  have down: "non_increasing (map ru_memoryUsage (slice_last 5 (resourceUsage ?down)))"
    using health_series_usage [of "[90, 80, 70, 60, 50, 40]"]
    by (simp add: slice_last_def drop_map [symmetric] non_increasing_def upt_rec)
  have none: "\<not> (\<exists>a\<in>set (anomalies new_engine).
                   unresolved_with capacity_issue ''Memory Usage Trending Upward'' a)"
    by (simp add: new_engine_def)
  from memory_trend_scenario [of ?up sample_world None None new_engine] up none
  have a: "mk_anomaly (sample_world 7) (memory_trend_anomaly 100)
     \<in> set (anomalies (runAnomalyDetection sample_world None None (Some ?up) new_engine))"
    by blast
  from memory_trend_scenario [of ?down] down
  have b: "calculateTrendDirection (map ru_memoryUsage (slice_last 5 (resourceUsage ?down))) = 0"
    by blast
  from a b show ?thesis by simp
qed

text \<open>
  With exactly the five snapshots 50, 60, 70, 80, 90 the guard \<open>resourceUsage.length > 5\<close>
  is false: the pass adds the high-memory anomaly only.
\<close>

theorem memory_trend_five_counterexample:
  "map title (anomalies (runAnomalyDetection sample_world None None
      (Some (getSystemHealthAnalytics (health_series [50, 60, 70, 80, 90]))) new_engine))
   = [''High Memory Usage Detected'']"
proof -
  let ?h = "getSystemHealthAnalytics (health_series [50, 60, 70, 80, 90])"
  have len: "length (resourceUsage ?h) = 5"
    using arg_cong [OF health_series_usage [of "[50, 60, 70, 80, 90]"], of length] by simp
  have cur: "map_option memoryUsage (currentHealth ?h) = Some 90"
    "map_option errorRate (currentHealth ?h) = Some 0"
    by (simp_all add: getSystemHealthAnalytics_def health_series_def last_opt_def)
  then obtain c where c: "currentHealth ?h = Some c" "memoryUsage c = 90" "errorRate c = 0"
    by auto
  have "health_firings (sample_world 5) (sample_world 6) (sample_world 7) (Some ?h)
      = [(sample_world 5, high_memory_anomaly 90)]"
    using c len by (simp add: health_firings_def)
  then have "pass_firings sample_world None None (Some ?h) = [(sample_world 5, high_memory_anomaly 90)]"
    by (simp add: pass_firings_def performance_firings_def behavior_firings_def)
  then show ?thesis
    by (simp add: runAnomalyDetection_adds addAnomaly_cases new_engine_def
          cleanupOldAnomalies_def Let_def high_memory_anomaly_def mk_anomaly_def)
qed

section \<open>Trend labels of the dashboard\<close>

lemma calculateTrendStatus_rising:
  "calculateTrendStatus data prop higherIsBetter =
     (if rising_trend data prop then (if higherIsBetter then improving else declining)
      else stable)"
proof -
  have neg: "\<not> calculateTrendDirection w < - 10" for w
    using calculateTrendDirection_nonneg [of w] by simp
  show ?thesis
    by (simp add: calculateTrendStatus_def rising_trend_def Let_def neg split: option.splits)
qed

text \<open>
  C7 (amended). Of the labels of \<open>trendAnalysis\<close>, \<open>performance\<close> and \<open>efficiency\<close> come from
  the trend-direction heuristic over the last three items: \<open>efficiency\<close> (higher is better)
  is improving on a rising trend, \<open>performance\<close> (lower is better) is declining on a rising
  trend, and each is stable otherwise. \<open>systemHealth\<close> does not come from the heuristic: it
  is improving when the performance score of the health payload exceeds 80 and declining
  otherwise, and it is never stable.
\<close>

theorem dashboard_trend_labels:
  "ta_performance (getDashboard_trendAnalysis p b h) =
     (if rising_trend (map_option performanceTrends p) (performance_trend_property ''averageDuration'')
      then declining else stable)
   \<and> ta_efficiency (getDashboard_trendAnalysis p b h) =
     (if rising_trend (map_option operationFrequency p) (operation_frequency_property ''count'')
      then improving else stable)
   \<and> ta_systemHealth (getDashboard_trendAnalysis p b h) =
     (if (case h of None \<Rightarrow> False | Some d \<Rightarrow> performanceScore d > 80)
      then improving else declining)
   \<and> ta_systemHealth (getDashboard_trendAnalysis p b h) \<noteq> stable"
  by (simp add: getDashboard_trendAnalysis_def calculateTrendStatus_rising)

lemma rising_payload_trends:
  "rising_trend (map_option performanceTrends (Some rising_payload))
     (performance_trend_property ''averageDuration'')"
  "rising_trend (map_option operationFrequency (Some rising_payload))
     (operation_frequency_property ''count'')"
  by (simp_all add: rising_trend_def rising_payload_def slice_last_def or_zero_def
        performance_trend_property_def operation_frequency_property_def
        calculateTrendDirection_def trend_loop.simps)

lemma sample_logger_score: "performanceScore (getSystemHealthAnalytics sample_logger) = 70"
  by (simp add: getSystemHealthAnalytics_def calculatePerformanceScore_def last_opt_def
        sample_logger_def sample_snapshot_def Let_def)

text \<open>
  On the rising payload \<open>performance\<close> is declining and \<open>efficiency\<close> improving; with the
  score 70 of the sample collector \<open>systemHealth\<close> is declining.
\<close>

theorem dashboard_trend_labels_witness:
  "ta_performance (getDashboard_trendAnalysis (Some rising_payload) None
        (Some (getSystemHealthAnalytics sample_logger))) = declining
   \<and> ta_efficiency (getDashboard_trendAnalysis (Some rising_payload) None
        (Some (getSystemHealthAnalytics sample_logger))) = improving
   \<and> ta_systemHealth (getDashboard_trendAnalysis (Some rising_payload) None
        (Some (getSystemHealthAnalytics sample_logger))) = declining"
  using dashboard_trend_labels [of "Some rising_payload" None
      "Some (getSystemHealthAnalytics sample_logger)"]
    rising_payload_trends sample_logger_score
  by simp

text \<open>
  On a collector without any health snapshot the score is 100, and \<open>systemHealth\<close> is
  labelled improving although there is no sample that could rise.
\<close>

theorem dashboard_systemHealth_counterexample:
  "healthTrends (getSystemHealthAnalytics (new_logger ''s'')) = []
   \<and> ta_systemHealth (getDashboard_trendAnalysis None None
        (Some (getSystemHealthAnalytics (new_logger ''s'')))) = improving"
  by (simp add: getDashboard_trendAnalysis_def getSystemHealthAnalytics_def new_logger_def
        calculatePerformanceScore_def last_opt_def slice_last_def)

section \<open>Bounded retention\<close>

lemma addAnomaly_others [simp]:
  "insights (addAnomaly e d s) = insights s"
  "recommendations (addAnomaly e d s) = recommendations s"
  by (simp_all add: addAnomaly_def Let_def pruneAnomalies_def split: option.splits)

lemma addAnomaly_length:
  "length (anomalies s) \<le> 100 \<Longrightarrow> length (anomalies (addAnomaly e d s)) \<le> 100"
  by (simp add: addAnomaly_cases slice_last_length)

lemma adds_others [simp]:
  "insights (adds fs s) = insights s" "recommendations (adds fs s) = recommendations s"
  by (induction fs arbitrary: s) simp_all

lemma adds_length:
  "length (anomalies s) \<le> 100 \<Longrightarrow> length (anomalies (adds fs s)) \<le> 100"
  by (induction fs arbitrary: s) (simp_all add: addAnomaly_length)

lemma cleanupOldAnomalies_others [simp]:
  "insights (cleanupOldAnomalies t s) = insights s"
  "recommendations (cleanupOldAnomalies t s) = recommendations s"
  by (simp_all add: cleanupOldAnomalies_def Let_def)

lemma cleanupOldAnomalies_length:
  "length (anomalies (cleanupOldAnomalies t s)) \<le> length (anomalies s)"
  by (simp add: cleanupOldAnomalies_def Let_def)

lemma runAnomalyDetection_caps:
  "insights (runAnomalyDetection w p b h s) = insights s"
  "recommendations (runAnomalyDetection w p b h s) = recommendations s"
  "length (anomalies s) \<le> 100 \<Longrightarrow> length (anomalies (runAnomalyDetection w p b h s)) \<le> 100"
proof -
  show "insights (runAnomalyDetection w p b h s) = insights s"
    by (simp add: runAnomalyDetection_adds)
  show "recommendations (runAnomalyDetection w p b h s) = recommendations s"
    by (simp add: runAnomalyDetection_adds)
  assume "length (anomalies s) \<le> 100"
  then have "length (anomalies (adds (pass_firings w p b h) s)) \<le> 100" by (rule adds_length)
  then show "length (anomalies (runAnomalyDetection w p b h s)) \<le> 100"
    using cleanupOldAnomalies_length [of "now (w 8)" "adds (pass_firings w p b h) s"]
    by (simp add: runAnomalyDetection_adds)
qed

lemma addInsight_caps:
  "anomalies (addInsight e d s) = anomalies s"
  "recommendations (addInsight e d s) = recommendations s"
  "length (insights s) \<le> 50 \<Longrightarrow> length (insights (addInsight e d s)) \<le> 50"
  by (simp_all add: addInsight_def Let_def pruneInsights_def slice_last_length split: option.splits)

lemma addRecommendation_caps:
  "anomalies (addRecommendation e d s) = anomalies s"
  "insights (addRecommendation e d s) = insights s"
  "length (recommendations s) \<le> 30 \<Longrightarrow> length (recommendations (addRecommendation e d s)) \<le> 30"
  by (simp_all add: addRecommendation_def Let_def pruneRecommendations_def slice_last_length
        split: option.splits)

lemma implement_first_length: "length (implement_first t i imp xs) = length xs"
  by (induction xs) (auto split: option.splits)

lemma filter_length_le: "length xs \<le> n \<Longrightarrow> length (filter P xs) \<le> n"
  using length_filter_le [of P xs] by (rule order_trans)

lemma pruneMetrics_series:
  "performanceMetrics (pruneMetrics l) = slice_last 1000 (performanceMetrics l)"
  "userBehaviorMetrics (pruneMetrics l) = slice_last 1000 (userBehaviorMetrics l)"
  "systemHealthMetrics (pruneMetrics l) = slice_last 1000 (systemHealthMetrics l)"
  by (simp_all add: pruneMetrics_def Let_def slice_last_all)

lemma slice_last_le: "length (slice_last n xs) \<le> n"
  by (simp add: slice_last_length)

lemma step_within_caps: "within_caps s \<Longrightarrow> within_caps (step op s)"
proof (cases op)
  case (AddAnomaly e d)
  then show "within_caps s \<Longrightarrow> within_caps (step op s)"
    by (simp add: within_caps_def addAnomaly_length)
next
  case (AddInsight e d)
  then show "within_caps s \<Longrightarrow> within_caps (step op s)"
    by (simp add: within_caps_def addInsight_caps)
next
  case (AddRecommendation e d)
  then show "within_caps s \<Longrightarrow> within_caps (step op s)"
    by (simp add: within_caps_def addRecommendation_caps)
next
  case (RunAnomalyDetection w p b h)
  then show "within_caps s \<Longrightarrow> within_caps (step op s)"
    by (simp add: within_caps_def runAnomalyDetection_caps)
next
  case (CleanupOldAnomalies t)
  then show "within_caps s \<Longrightarrow> within_caps (step op s)"
    using cleanupOldAnomalies_length [of t "sys_engine s"] by (simp add: within_caps_def)
next
  case (CleanupOldInsights t)
  then show "within_caps s \<Longrightarrow> within_caps (step op s)"
    by (simp add: within_caps_def cleanupOldInsights_def filter_length_le)
next
  case (CleanupOldRecommendations t)
  then show "within_caps s \<Longrightarrow> within_caps (step op s)"
    by (simp add: within_caps_def cleanupOldRecommendations_def filter_length_le)
next
  case (ResolveAnomaly t i)
  then show "within_caps s \<Longrightarrow> within_caps (step op s)"
    by (simp add: within_caps_def resolveAnomaly_def resolve_first_length)
next
  case (MarkRecommendationImplemented t i imp)
  then show "within_caps s \<Longrightarrow> within_caps (step op s)"
    by (simp add: within_caps_def markRecommendationImplemented_def implement_first_length)
next
  case (LogChangeWithPerformance e name failure cp)
  then show "within_caps s \<Longrightarrow> within_caps (step op s)"
    by (simp add: within_caps_def Let_def logChangeWithPerformance_def pruneMetrics_series
          slice_last_le split: option.splits)
next
  case (TrackUserBehavior b act c)
  then show "within_caps s \<Longrightarrow> within_caps (step op s)"
    by (simp add: within_caps_def Let_def trackUserBehavior_def pruneMetrics_series slice_last_le
          split: option.splits)
next
  case (RecordSystemHealth h)
  then show "within_caps s \<Longrightarrow> within_caps (step op s)"
    by (simp add: within_caps_def Let_def recordSystemHealth_def pruneMetrics_series slice_last_le)
next
  case (LogChange e params)
  then show "within_caps s \<Longrightarrow> within_caps (step op s)"
    by (simp add: within_caps_def)
qed

lemma run_ops_within_caps: "within_caps s \<Longrightarrow> within_caps (run_ops ops s)"
  unfolding run_ops_def
  by (induction ops arbitrary: s) (simp_all add: step_within_caps)

lemma initial_within_caps: "within_caps (initial session stored)"
  by (simp add: within_caps_def initial_def new_engine_def new_logger_def)

lemma slice_last_pushed:
  "slice_last n (xs @ [x]) = drop (length (xs @ [x]) - n) (xs @ [x])"
  by (simp add: slice_last_def)

lemma prune_pushed:
  "(if length (xs @ [x]) > n then slice_last n (xs @ [x]) else xs @ [x])
     = drop (length (xs @ [x]) - n) (xs @ [x])"
  by (simp add: slice_last_def)

lemma mk_insight_key [simp]:
  "itype (mk_insight e d) = itype d" "i_title (mk_insight e d) = i_title d"
  by (simp_all add: mk_insight_def)

lemma mk_recommendation_key [simp]:
  "category (mk_recommendation e d) = category d" "r_title (mk_recommendation e d) = r_title d"
  by (simp_all add: mk_recommendation_def)

lemma addAnomaly_result:
  "anomalies (addAnomaly e d s) =
     (if list_ex (unresolved_with (atype d) (title d)) (anomalies s) then anomalies s
      else drop (length (anomalies s @ [mk_anomaly e d]) - 100) (anomalies s @ [mk_anomaly e d]))"
proof (cases "list_ex (unresolved_with (atype d) (title d)) (anomalies s)")
  case True
  then have "find (\<lambda>a. atype a = atype d \<and> title a = title d \<and> \<not> autoResolved a) (anomalies s) \<noteq> None"
    by (auto simp: find_None_iff list_ex_iff unresolved_with_def)
  with True show ?thesis
    by (auto simp: addAnomaly_def Let_def split: option.splits)
next
  case False
  then have "find (\<lambda>a. atype a = atype d \<and> title a = title d \<and> \<not> autoResolved a) (anomalies s) = None"
    by (auto simp: find_None_iff list_ex_iff unresolved_with_def)
  then have "anomalies (addAnomaly e d s) =
      (if length (anomalies s @ [mk_anomaly e d]) > 100
       then slice_last 100 (anomalies s @ [mk_anomaly e d]) else anomalies s @ [mk_anomaly e d])"
    by (simp add: addAnomaly_def Let_def pruneAnomalies_def)
  with False show ?thesis by (simp only: prune_pushed if_False)
qed

lemma addInsight_result:
  "insights (addInsight e d s) =
     (if list_ex (insight_with (itype d) (i_title d)) (insights s) then insights s
      else drop (length (insights s @ [mk_insight e d]) - 50) (insights s @ [mk_insight e d]))"
proof (cases "list_ex (insight_with (itype d) (i_title d)) (insights s)")
  case True
  then have "find (\<lambda>i. itype i = itype d \<and> i_title i = i_title d) (insights s) \<noteq> None"
    by (auto simp: find_None_iff list_ex_iff insight_with_def)
  with True show ?thesis
    by (auto simp: addInsight_def Let_def split: option.splits)
next
  case False
  then have "find (\<lambda>i. itype i = itype d \<and> i_title i = i_title d) (insights s) = None"
    by (auto simp: find_None_iff list_ex_iff insight_with_def)
  then have "insights (addInsight e d s) =
      (if length (insights s @ [mk_insight e d]) > 50
       then slice_last 50 (insights s @ [mk_insight e d]) else insights s @ [mk_insight e d])"
    by (simp add: addInsight_def Let_def pruneInsights_def)
  with False show ?thesis by (simp only: prune_pushed if_False)
qed

lemma addRecommendation_result:
  "recommendations (addRecommendation e d s) =
     (if list_ex (open_recommendation (category d) (r_title d)) (recommendations s)
      then recommendations s
      else drop (length (recommendations s @ [mk_recommendation e d]) - 30)
             (recommendations s @ [mk_recommendation e d]))"
proof (cases "list_ex (open_recommendation (category d) (r_title d)) (recommendations s)")
  case True
  then have "find (\<lambda>r. category r = category d \<and> r_title r = r_title d \<and> \<not> implemented r)
      (recommendations s) \<noteq> None"
    by (auto simp: find_None_iff list_ex_iff open_recommendation_def)
  with True show ?thesis
    by (auto simp: addRecommendation_def Let_def split: option.splits)
next
  case False
  then have "find (\<lambda>r. category r = category d \<and> r_title r = r_title d \<and> \<not> implemented r)
      (recommendations s) = None"
    by (auto simp: find_None_iff list_ex_iff open_recommendation_def)
  then have "recommendations (addRecommendation e d s) =
      (if length (recommendations s @ [mk_recommendation e d]) > 30
       then slice_last 30 (recommendations s @ [mk_recommendation e d])
       else recommendations s @ [mk_recommendation e d])"
    by (simp add: addRecommendation_def Let_def pruneRecommendations_def)
  with False show ?thesis by (simp only: prune_pushed if_False)
qed

lemma newest_kept: "last (drop (length (xs @ [x]) - Suc n) (xs @ [x])) = x"
  by simp

text \<open>
  C9. After every sequence of engine and collector operations on the state after
  construction, the insight collection holds at most 50 entries, the anomaly collection
  at most 100, the recommendation collection at most 30 and each of the three metric
  series at most 1000. Every add that is not refused as a duplicate and every record
  pushes the new entry at the end and keeps the last entries up to the cap: what is
  dropped comes from the front of the array, where the oldest entries are, and the new
  entry is always kept (the last of the last \<open>n + 1\<close> entries of an array is the entry
  pushed last). Every prune keeps the last entries up to the cap.
\<close>

theorem bounded_retention:
  "within_caps (run_ops ops (initial session stored))
   \<and> insights (addInsight e1 d1 s) =
       (if list_ex (insight_with (itype d1) (i_title d1)) (insights s) then insights s
        else drop (length (insights s @ [mk_insight e1 d1]) - 50) (insights s @ [mk_insight e1 d1]))
   \<and> anomalies (addAnomaly e2 d2 s) =
       (if list_ex (unresolved_with (atype d2) (title d2)) (anomalies s) then anomalies s
        else drop (length (anomalies s @ [mk_anomaly e2 d2]) - 100)
               (anomalies s @ [mk_anomaly e2 d2]))
   \<and> recommendations (addRecommendation e3 d3 s) =
       (if list_ex (open_recommendation (category d3) (r_title d3)) (recommendations s)
        then recommendations s
        else drop (length (recommendations s @ [mk_recommendation e3 d3]) - 30)
               (recommendations s @ [mk_recommendation e3 d3]))
   \<and> performanceMetrics (fst (snd (logChangeWithPerformance e4 op w (Some cp) (l, st)))) =
       drop (length (performanceMetrics l
                @ [mk_metrics e4 op cp (case w of Inl err \<Rightarrow> False | Inr r \<Rightarrow> True)
                     (case w of Inl err \<Rightarrow> Some (classify err) | Inr r \<Rightarrow> None)]) - 1000)
         (performanceMetrics l
            @ [mk_metrics e4 op cp (case w of Inl err \<Rightarrow> False | Inr r \<Rightarrow> True)
                 (case w of Inl err \<Rightarrow> Some (classify err) | Inr r \<Rightarrow> None)])
   \<and> userBehaviorMetrics (snd (trackUserBehavior b act (Some c) l)) =
       drop (length (userBehaviorMetrics l @ [mk_behavior_metrics b act c l]) - 1000)
         (userBehaviorMetrics l @ [mk_behavior_metrics b act c l])
   \<and> systemHealthMetrics (recordSystemHealth h st l) =
       drop (length (systemHealthMetrics l @ [mk_health_metrics h st l]) - 1000)
         (systemHealthMetrics l @ [mk_health_metrics h st l])
   \<and> last (drop (length (xs @ [x]) - Suc n) (xs @ [x])) = x
   \<and> insights (pruneInsights e) = drop (length (insights e) - 50) (insights e)
   \<and> anomalies (pruneAnomalies e) = drop (length (anomalies e) - 100) (anomalies e)
   \<and> recommendations (pruneRecommendations e)
        = drop (length (recommendations e) - 30) (recommendations e)
   \<and> performanceMetrics (pruneMetrics l)
        = drop (length (performanceMetrics l) - 1000) (performanceMetrics l)
   \<and> userBehaviorMetrics (pruneMetrics l)
        = drop (length (userBehaviorMetrics l) - 1000) (userBehaviorMetrics l)
   \<and> systemHealthMetrics (pruneMetrics l)
        = drop (length (systemHealthMetrics l) - 1000) (systemHealthMetrics l)"
proof -
  have a: "within_caps (run_ops ops (initial session stored))"
    by (intro run_ops_within_caps initial_within_caps)
  have b: "insights (pruneInsights e) = drop (length (insights e) - 50) (insights e)"
    "anomalies (pruneAnomalies e) = drop (length (anomalies e) - 100) (anomalies e)"
    "recommendations (pruneRecommendations e)
        = drop (length (recommendations e) - 30) (recommendations e)"
    by (simp_all add: pruneInsights_def pruneAnomalies_def pruneRecommendations_def slice_last_def)
  have c: "performanceMetrics (pruneMetrics l)
        = drop (length (performanceMetrics l) - 1000) (performanceMetrics l)"
    "userBehaviorMetrics (pruneMetrics l)
        = drop (length (userBehaviorMetrics l) - 1000) (userBehaviorMetrics l)"
    "systemHealthMetrics (pruneMetrics l)
        = drop (length (systemHealthMetrics l) - 1000) (systemHealthMetrics l)"
    by (simp_all add: pruneMetrics_series slice_last_def)
  have d: "performanceMetrics (fst (snd (logChangeWithPerformance e4 op w (Some cp) (l, st)))) =
       drop (length (performanceMetrics l
                @ [mk_metrics e4 op cp (case w of Inl err \<Rightarrow> False | Inr r \<Rightarrow> True)
                     (case w of Inl err \<Rightarrow> Some (classify err) | Inr r \<Rightarrow> None)]) - 1000)
         (performanceMetrics l
            @ [mk_metrics e4 op cp (case w of Inl err \<Rightarrow> False | Inr r \<Rightarrow> True)
                 (case w of Inl err \<Rightarrow> Some (classify err) | Inr r \<Rightarrow> None)])"
    by (simp only: wrapper_sample slice_last_pushed)
  have f: "userBehaviorMetrics (snd (trackUserBehavior b act (Some c) l)) =
       drop (length (userBehaviorMetrics l @ [mk_behavior_metrics b act c l]) - 1000)
         (userBehaviorMetrics l @ [mk_behavior_metrics b act c l])"
    by (simp add: trackUserBehavior_def Let_def pruneMetrics_series slice_last_def)
  have g: "systemHealthMetrics (recordSystemHealth h st l) =
       drop (length (systemHealthMetrics l @ [mk_health_metrics h st l]) - 1000)
         (systemHealthMetrics l @ [mk_health_metrics h st l])"
    by (simp add: recordSystemHealth_def Let_def pruneMetrics_series slice_last_def)
  note adds = addInsight_result [of e1 d1 s] addAnomaly_result [of e2 d2 s]
    addRecommendation_result [of e3 d3 s]
  show ?thesis
    by (intro conjI a b c d f g adds newest_kept)
qed

text \<open>
  Two operations on the constructed state; and the last of the last three entries of an
  array of four is the entry pushed last.
\<close>

theorem bounded_retention_witness:
  "within_caps (run_ops [AddAnomaly (env_at 1 ''a'') high_memory_rule, ResolveAnomaly 2 ''anomaly_a'']
      (initial ''s'' []))
   \<and> last (drop (length ([1, 2, 3 :: nat] @ [4]) - Suc 2) ([1, 2, 3 :: nat] @ [4])) = 4"
proof -
  note caps = bounded_retention
    [where ops = "[AddAnomaly (env_at 1 ''a'') high_memory_rule, ResolveAnomaly 2 ''anomaly_a'']"
       and session = "''s''" and stored = "[]", THEN conjunct1]
  note kept = bounded_retention
    [where xs = "[1, 2, 3 :: nat]" and x = 4 and n = 2,
     THEN conjunct2, THEN conjunct2, THEN conjunct2, THEN conjunct2, THEN conjunct2,
     THEN conjunct2, THEN conjunct2, THEN conjunct1]
  from caps kept show ?thesis by (rule conjI)
qed

end
